theory Spec2Isabelle
  imports Main "HOL-Library.Word"
begin

section \<open>Ed25519 request verification: \<open>src/utilities/verification.ts\<close>\<close>

text \<open>
  The module exports \<open>verifyKey\<close> and has two private helpers, \<open>valueToUint8Array\<close>
  and \<open>concatUint8Arrays\<close>. The embedding keeps the three functions and their names.
  Everything they call that is not defined in the module (strings, typed arrays,
  \<open>String.prototype.match\<close>, \<open>Number.parseInt\<close>, \<open>TextEncoder\<close>, the WebCrypto
  provider) belongs to the JavaScript platform and is modelled first, after ECMA-262,
  the WHATWG Encoding standard and the WebCrypto interface.
\<close>

subsection \<open>Platform: values, errors, the store of array buffers\<close>

type_synonym byte = "8 word"

text \<open>A JavaScript string is a sequence of UTF-16 code units.\<close>

type_synonym code_unit = "16 word"
type_synonym js_string = "code_unit list"

text \<open>Thrown values. The module itself only throws plain \<open>Error\<close> objects with a message.\<close>

datatype js_error =
    Error string
  | TypeError string
  | RangeError string
  | DOMException string

text \<open>
  Array buffers live in a store; the address of a buffer is its index. A typed array
  (\<open>Uint8Array\<close>, and Node's \<open>Buffer\<close>, which is a subclass of it) is a view: a
  buffer, an offset into it and a length. Several views may share one buffer, which is
  what makes writes through a view visible elsewhere.
\<close>

type_synonym addr = nat
type_synonym heap = "byte list list"

record typed_array =
  buffer :: addr
  byteOffset :: nat
  byteLength :: nat

datatype js_value =
    JSUndefined
  | JSNull
  | JSString js_string
  | JSBuffer typed_array
  | JSArrayBuffer addr
  | JSUint8Array typed_array
  | JSOther string

text \<open>
  \<open>JSOther\<close> stands for every other value (numbers, booleans, plain objects, other
  typed arrays, ...); its argument only tells such values apart.
\<close>

definition read_buffer :: "heap \<Rightarrow> addr \<Rightarrow> byte list" where
  "read_buffer h b = (if b < length h then h ! b else [])"

definition read_bytes :: "heap \<Rightarrow> typed_array \<Rightarrow> byte list" where
  "read_bytes h a = take (byteLength a) (drop (byteOffset a) (read_buffer h (buffer a)))"

text \<open>The views and values a program can hold: they lie inside an existing buffer.\<close>

definition valid_view :: "heap \<Rightarrow> typed_array \<Rightarrow> bool" where
  "valid_view h a \<longleftrightarrow>
     buffer a < length h \<and> byteOffset a + byteLength a \<le> length (read_buffer h (buffer a))"

fun valid_value :: "heap \<Rightarrow> js_value \<Rightarrow> bool" where
  "valid_value h (JSBuffer a) = valid_view h a"
| "valid_value h (JSArrayBuffer b) = (b < length h)"
| "valid_value h (JSUint8Array a) = valid_view h a"
| "valid_value h v = True"

text \<open>
  \<open>new Uint8Array(elements)\<close>, \<open>new Uint8Array(n)\<close>, \<open>new Uint8Array(typedArray)\<close> and
  \<open>TextEncoder.encode\<close> all allocate a fresh buffer holding the given bytes and return
  a view of the whole of it.
\<close>

definition new_Uint8Array :: "heap \<Rightarrow> byte list \<Rightarrow> typed_array \<times> heap" where
  "new_Uint8Array h bs =
     (\<lparr>buffer = length h, byteOffset = 0, byteLength = length bs\<rparr>, h @ [bs])"

text \<open>\<open>new Uint8Array(arrayBuffer)\<close> allocates nothing: the view shares the buffer.\<close>

definition view_of_ArrayBuffer :: "heap \<Rightarrow> addr \<Rightarrow> typed_array" where
  "view_of_ArrayBuffer h b =
     \<lparr>buffer = b, byteOffset = 0, byteLength = length (read_buffer h b)\<rparr>"

text \<open>
  \<open>target.set(source, targetOffset)\<close>: a \<open>RangeError\<close> when the source does not fit,
  otherwise the source's elements are read and then written into the target's buffer.
\<close>

definition TypedArray_set ::
  "heap \<Rightarrow> typed_array \<Rightarrow> typed_array \<Rightarrow> nat \<Rightarrow> js_error + heap" where
  "TypedArray_set h target source targetOffset =
     (if byteLength source + targetOffset > byteLength target
      then Inl (RangeError ''offset is out of bounds'')
      else
        let src = read_bytes h source;
            start = byteOffset target + targetOffset;
            buf = read_buffer h (buffer target)
        in Inr (h[buffer target := take start buf @ src @ drop (start + length src) buf]))"

subsection \<open>Platform: \<open>String.prototype.match(/.{1,2}/g)\<close>\<close>

text \<open>
  Without the \<open>s\<close> and \<open>u\<close> flags, \<open>.\<close> matches one code unit that is not a line
  terminator (LF, CR, U+2028, U+2029).
\<close>

definition isLineTerminator :: "code_unit \<Rightarrow> bool" where
  "isLineTerminator c \<longleftrightarrow> c = 0x0A \<or> c = 0x0D \<or> c = 0x2028 \<or> c = 0x2029"

text \<open>
  All matches of the greedy \<open>.{1,2}\<close>, left to right: at a line terminator the match
  fails and the search moves on by one; otherwise two code units are taken when the
  next one is no line terminator either, else one.
\<close>

fun match_all :: "js_string \<Rightarrow> js_string list" where
  "match_all [] = []"
| "match_all [c] = (if isLineTerminator c then [] else [[c]])"
| "match_all (c # d # cs) =
     (if isLineTerminator c then match_all (d # cs)
      else if isLineTerminator d then [c] # match_all (d # cs)
      else [c, d] # match_all cs)"

text \<open>With the \<open>g\<close> flag \<open>match\<close> returns \<open>null\<close> when there is no match at all.\<close>

definition String_match :: "js_string \<Rightarrow> js_string list option" where
  "String_match s = (case match_all s of [] \<Rightarrow> None | m # ms \<Rightarrow> Some (m # ms))"

subsection \<open>Platform: \<open>Number.parseInt(string, 16)\<close> and the conversion to a byte\<close>

text \<open>\<open>StrWhiteSpaceChar\<close>: white space and line terminators, trimmed at the start.\<close>

definition isStrWhiteSpaceChar :: "code_unit \<Rightarrow> bool" where
  "isStrWhiteSpaceChar c \<longleftrightarrow>
     c = 0x09 \<or> c = 0x0B \<or> c = 0x0C \<or> c = 0x20 \<or> c = 0xA0 \<or> c = 0xFEFF \<or> c = 0x1680 \<or>
     (0x2000 \<le> c \<and> c \<le> 0x200A) \<or> c = 0x202F \<or> c = 0x205F \<or> c = 0x3000 \<or>
     isLineTerminator c"

definition hex_digit :: "code_unit \<Rightarrow> nat option" where
  "hex_digit c =
     (if 0x30 \<le> c \<and> c \<le> 0x39 then Some (unat c - 0x30)
      else if 0x61 \<le> c \<and> c \<le> 0x66 then Some (unat c - 0x61 + 10)
      else if 0x41 \<le> c \<and> c \<le> 0x46 then Some (unat c - 0x41 + 10)
      else None)"

definition isHexDigit :: "code_unit \<Rightarrow> bool" where
  "isHexDigit c \<longleftrightarrow> hex_digit c \<noteq> None"

definition hex_value :: "js_string \<Rightarrow> nat" where
  "hex_value Z = foldl (\<lambda>acc c. 16 * acc + (case hex_digit c of Some d \<Rightarrow> d | None \<Rightarrow> 0)) 0 Z"

text \<open>
  \<open>parseInt\<close> with radix 16: leading white space is dropped, then an optional sign, then
  an optional \<open>0x\<close> or \<open>0X\<close>; the longest run of hexadecimal digits that follows is the
  number, and anything after it is ignored. With no digit the result is \<open>NaN\<close>, here
  \<open>None\<close>. (The result \<open>-0\<close> is \<open>Some 0\<close>: both become the byte 0.)
\<close>

definition parseInt16 :: "js_string \<Rightarrow> int option" where
  "parseInt16 inputString =
     (let S = dropWhile isStrWhiteSpaceChar inputString;
          sign = (if S \<noteq> [] \<and> hd S = 0x2D then - 1 else 1);
          S1 = (if S \<noteq> [] \<and> (hd S = 0x2B \<or> hd S = 0x2D) then tl S else S);
          S2 = (if 2 \<le> length S1 \<and> (take 2 S1 = [0x30, 0x78] \<or> take 2 S1 = [0x30, 0x58])
                then drop 2 S1 else S1);
          Z = takeWhile isHexDigit S2
      in if Z = [] then None else Some (sign * int (hex_value Z)))"

text \<open>
  An element stored into a \<open>Uint8Array\<close> goes through \<open>ToUint8\<close>: \<open>NaN\<close> becomes 0, an
  integer is reduced modulo 256.
\<close>

definition ToUint8 :: "int option \<Rightarrow> byte" where
  "ToUint8 n = (case n of None \<Rightarrow> 0 | Some i \<Rightarrow> word_of_int i)"

subsection \<open>Platform: \<open>TextEncoder.encode\<close>\<close>

definition isHighSurrogate :: "code_unit \<Rightarrow> bool" where
  "isHighSurrogate c \<longleftrightarrow> 0xD800 \<le> c \<and> c \<le> 0xDBFF"

definition isLowSurrogate :: "code_unit \<Rightarrow> bool" where
  "isLowSurrogate c \<longleftrightarrow> 0xDC00 \<le> c \<and> c \<le> 0xDFFF"

text \<open>
  The string is read as scalar values: a surrogate pair is one code point, a lone
  surrogate is replaced by U+FFFD.
\<close>

fun scalar_values :: "js_string \<Rightarrow> nat list" where
  "scalar_values [] = []"
| "scalar_values [c] = [if isHighSurrogate c \<or> isLowSurrogate c then 0xFFFD else unat c]"
| "scalar_values (c # d # cs) =
     (if isHighSurrogate c then
        (if isLowSurrogate d
         then (0x10000 + (unat c - 0xD800) * 0x400 + (unat d - 0xDC00)) # scalar_values cs
         else 0xFFFD # scalar_values (d # cs))
      else if isLowSurrogate c then 0xFFFD # scalar_values (d # cs)
      else unat c # scalar_values (d # cs))"

definition utf8_bytes :: "nat \<Rightarrow> byte list" where
  "utf8_bytes cp =
     (if cp < 0x80 then [of_nat cp]
      else if cp < 0x800 then [of_nat (0xC0 + cp div 0x40), of_nat (0x80 + cp mod 0x40)]
      else if cp < 0x10000 then
        [of_nat (0xE0 + cp div 0x1000), of_nat (0x80 + cp div 0x40 mod 0x40),
         of_nat (0x80 + cp mod 0x40)]
      else
        [of_nat (0xF0 + cp div 0x40000), of_nat (0x80 + cp div 0x1000 mod 0x40),
         of_nat (0x80 + cp div 0x40 mod 0x40), of_nat (0x80 + cp mod 0x40)])"

definition TextEncoder_encode :: "js_string \<Rightarrow> byte list" where
  "TextEncoder_encode s = concat (map utf8_bytes (scalar_values s))"

subsection \<open>Platform: the WebCrypto provider\<close>

text \<open>
  \<open>webcrypto.subtle\<close> is an external collaborator, so it is a parameter: a record of
  its two operations, for any type \<open>'k\<close> of key handles. Each operation either yields a
  value or fails (a rejected promise, or a synchronous throw). The provider works on
  copies of the bytes it is handed and depends on nothing else. \<open>importKey\<close> receives
  the format, the key data, the algorithm, the \<open>extractable\<close> flag and the key usages;
  \<open>verify\<close> receives the algorithm name, the key, the signature and the data.
\<close>

record key_algorithm =
  alg_name :: string
  alg_namedCurve :: string

record 'k subtle_crypto =
  importKey :: "string \<Rightarrow> byte list \<Rightarrow> key_algorithm \<Rightarrow> bool \<Rightarrow> string list \<Rightarrow> js_error + 'k"
  verify :: "string \<Rightarrow> 'k \<Rightarrow> byte list \<Rightarrow> byte list \<Rightarrow> js_error + bool"

subsection \<open>The module\<close>

text \<open>
  \<open>valueToUint8Array(value, format?)\<close>, branch by branch in the order of the source:
  \<open>value == null\<close> (true of \<open>null\<close> and \<open>undefined\<close>), strings with and without the
  format \<open>"hex"\<close>, \<open>Buffer.isBuffer\<close> (a copy), \<open>ArrayBuffer\<close> (a view of the same
  buffer), \<open>Uint8Array\<close> (the value itself), and the final throw. The \<open>try\<close> around
  \<open>Buffer.isBuffer\<close> only matters in a runtime without \<open>Buffer\<close>, where no value is one.
\<close>

fun valueToUint8Array ::
  "heap \<Rightarrow> js_value \<Rightarrow> string option \<Rightarrow> (js_error + typed_array) \<times> heap" where
  "valueToUint8Array h JSUndefined format =
     (let (a, h') = new_Uint8Array h [] in (Inr a, h'))"
| "valueToUint8Array h JSNull format =
     (let (a, h') = new_Uint8Array h [] in (Inr a, h'))"
| "valueToUint8Array h (JSString value) format =
     (if format = Some ''hex'' then
        (case String_match value of
           None \<Rightarrow> (Inl (Error ''Value is not a valid hex string''), h)
         | Some matches \<Rightarrow>
             (let hexVal = map parseInt16 matches;
                  (a, h') = new_Uint8Array h (map ToUint8 hexVal)
              in (Inr a, h')))
      else (let (a, h') = new_Uint8Array h (TextEncoder_encode value) in (Inr a, h')))"
| "valueToUint8Array h (JSBuffer value) format =
     (let (a, h') = new_Uint8Array h (read_bytes h value) in (Inr a, h'))"
| "valueToUint8Array h (JSArrayBuffer value) format =
     (Inr (view_of_ArrayBuffer h value), h)"
| "valueToUint8Array h (JSUint8Array value) format = (Inr value, h)"
| "valueToUint8Array h (JSOther t) format =
     (Inl (Error
        ''Unrecognized value type, must be one of: string, Buffer, ArrayBuffer, Uint8Array''),
      h)"

text \<open>\<open>concatUint8Arrays(arr1, arr2)\<close>: a zero-filled array, then two calls of \<open>set\<close>.\<close>

definition concatUint8Arrays ::
  "heap \<Rightarrow> typed_array \<Rightarrow> typed_array \<Rightarrow> (js_error + typed_array) \<times> heap" where
  "concatUint8Arrays h arr1 arr2 =
     (let (merged, h1) = new_Uint8Array h (replicate (byteLength arr1 + byteLength arr2) 0)
      in case TypedArray_set h1 merged arr1 0 of
           Inl e \<Rightarrow> (Inl e, h1)
         | Inr h2 \<Rightarrow>
             (case TypedArray_set h2 merged arr2 (byteLength arr1) of
                Inl e \<Rightarrow> (Inl e, h2)
              | Inr h3 \<Rightarrow> (Inr merged, h3)))"

text \<open>The public key is a string or a key handle (\<open>string | CryptoKey\<close>).\<close>

datatype 'k client_key = KeyString js_string | KeyHandle 'k

definition ed25519_algorithm :: key_algorithm where
  "ed25519_algorithm = \<lparr>alg_name = ''ed25519'', alg_namedCurve = ''ed25519''\<rparr>"

text \<open>
  The body of the \<open>try\<close> block of \<open>verifyKey\<close>, statement by statement. A throw in any
  statement ends the block with that error; the store keeps what was allocated so far.
  The arguments of \<open>subtleCrypto.verify\<close> are evaluated left to right, so the signature
  is decoded after the key has been imported.
\<close>

definition verifyKey_try ::
  "'k subtle_crypto \<Rightarrow> heap \<Rightarrow> js_value \<Rightarrow> js_string \<Rightarrow> js_string \<Rightarrow> 'k client_key \<Rightarrow>
   (js_error + bool) \<times> heap" where
  "verifyKey_try subtleCrypto h rawBody signature timestamp clientPublicKey =
     (case valueToUint8Array h (JSString timestamp) None of
        (Inl e, h1) \<Rightarrow> (Inl e, h1)
      | (Inr timestampData, h1) \<Rightarrow>
     (case valueToUint8Array h1 rawBody None of
        (Inl e, h2) \<Rightarrow> (Inl e, h2)
      | (Inr bodyData, h2) \<Rightarrow>
     (case concatUint8Arrays h2 timestampData bodyData of
        (Inl e, h3) \<Rightarrow> (Inl e, h3)
      | (Inr message, h3) \<Rightarrow>
     (case
        (case clientPublicKey of
           KeyString s \<Rightarrow>
             (case valueToUint8Array h3 (JSString s) (Some ''hex'') of
                (Inl e, h4) \<Rightarrow> (Inl e, h4)
              | (Inr keyData, h4) \<Rightarrow>
                  (importKey subtleCrypto ''raw'' (read_bytes h4 keyData)
                     ed25519_algorithm False [''verify''], h4))
         | KeyHandle k \<Rightarrow> (Inr k, h3))
      of
        (Inl e, h4) \<Rightarrow> (Inl e, h4)
      | (Inr publicKey, h4) \<Rightarrow>
     (case valueToUint8Array h4 (JSString signature) (Some ''hex'') of
        (Inl e, h5) \<Rightarrow> (Inl e, h5)
      | (Inr signatureData, h5) \<Rightarrow>
          (verify subtleCrypto ''ed25519'' publicKey
             (read_bytes h5 signatureData) (read_bytes h5 message), h5))))))"

text \<open>
  \<open>verifyKey\<close>: the \<open>try\<close> block, and \<open>catch (ex) { return false; }\<close> around it. The
  result is how the returned promise settles: \<open>Inr b\<close> when it is fulfilled with \<open>b\<close>,
  \<open>Inl e\<close> when it is rejected with \<open>e\<close>.
\<close>

definition verifyKey ::
  "'k subtle_crypto \<Rightarrow> heap \<Rightarrow> js_value \<Rightarrow> js_string \<Rightarrow> js_string \<Rightarrow> 'k client_key \<Rightarrow>
   (js_error + bool) \<times> heap" where
  "verifyKey subtleCrypto h rawBody signature timestamp clientPublicKey =
     (case verifyKey_try subtleCrypto h rawBody signature timestamp clientPublicKey of
        (Inl ex, h') \<Rightarrow> (Inr False, h')
      | (Inr isValid, h') \<Rightarrow> (Inr isValid, h'))"

subsection \<open>Reading results\<close>

text \<open>The bytes of a returned array, read in the store it was returned with.\<close>

definition result_bytes :: "(js_error + typed_array) \<times> heap \<Rightarrow> js_error + byte list" where
  "result_bytes r = (case r of (Inl e, h) \<Rightarrow> Inl e | (Inr a, h) \<Rightarrow> Inr (read_bytes h a))"

text \<open>
  What the normalizer makes of a string under the format \<open>"hex"\<close>: the decoded bytes,
  or the error it throws. (It does not depend on the store, see \<open>result_bytes_hex\<close>.)
\<close>

definition hex_bytes :: "js_string \<Rightarrow> js_error + byte list" where
  "hex_bytes s = result_bytes (valueToUint8Array [] (JSString s) (Some ''hex''))"

text \<open>
  Steps 4 to 6 of the specification's contract for the verifier, on byte values, once the
  message bytes \<open>m\<close> are known: resolve the key, decode the signature, ask the
  primitive, and turn every failure into \<open>False\<close>. The lemma \<open>verifyKey_results\<close>
  relates \<open>verifyKey\<close> to it.
\<close>

definition outcome :: "'k subtle_crypto \<Rightarrow> 'k client_key \<Rightarrow> js_string \<Rightarrow> byte list \<Rightarrow> bool" where
  "outcome P key sig m =
     (case (case key of
              KeyString s \<Rightarrow>
                (case hex_bytes s of
                   Inl e \<Rightarrow> Inl e
                 | Inr kb \<Rightarrow> importKey P ''raw'' kb ed25519_algorithm False [''verify''])
            | KeyHandle k \<Rightarrow> Inr k) of
        Inl e \<Rightarrow> False
      | Inr k \<Rightarrow>
          (case hex_bytes sig of
             Inl e \<Rightarrow> False
           | Inr sb \<Rightarrow> (case verify P ''ed25519'' k sb m of Inl e \<Rightarrow> False | Inr b \<Rightarrow> b)))"

text \<open>The code units of an ASCII literal, for writing examples.\<close>

definition ascii :: "string \<Rightarrow> js_string" where
  "ascii s = map (\<lambda>c. of_nat (of_char c)) s"

text \<open>
  A small provider to run examples with. Key handles are the raw key bytes; a key must
  be two bytes long and be imported the way \<open>verifyKey\<close> does it; a signature of some
  data is valid when it is the data followed by the key. It stands in for Ed25519 only
  in that it is a deterministic provider with keys it rejects and signatures it accepts.
\<close>

definition toy_subtle :: "byte list subtle_crypto" where
  "toy_subtle =
     \<lparr>importKey = (\<lambda>format keyData algorithm extractable usages.
        if format = ''raw'' \<and> algorithm = ed25519_algorithm \<and> \<not> extractable \<and>
           usages = [''verify''] \<and> length keyData = 2
        then Inr keyData else Inl (DOMException ''DataError'')),
      verify = (\<lambda>name key signature data.
        if name = ''ed25519'' then Inr (signature = data @ key)
        else Inl (DOMException ''NotSupportedError''))\<rparr>"

text \<open>A provider whose operations always fail.\<close>

definition failing_subtle :: "byte list subtle_crypto" where
  "failing_subtle =
     \<lparr>importKey = (\<lambda>format keyData algorithm extractable usages.
        Inl (DOMException ''NotSupportedError'')),
      verify = (\<lambda>name key signature data. Inl (DOMException ''NotSupportedError''))\<rparr>"






section \<open>Properties\<close>

subsection \<open>The store only grows\<close>

lemma read_buffer_append: "b < length h \<Longrightarrow> read_buffer (h @ ext) b = read_buffer h b"
  by (simp add: read_buffer_def nth_append)

lemma read_bytes_append: "buffer a < length h \<Longrightarrow> read_bytes (h @ ext) a = read_bytes h a"
  by (simp add: read_bytes_def read_buffer_append)

lemma valid_view_append: "valid_view h a \<Longrightarrow> valid_view (h @ ext) a"
  by (simp add: valid_view_def read_buffer_append)

lemma valid_value_append: "valid_value h v \<Longrightarrow> valid_value (h @ ext) v"
  by (cases v) (simp_all add: valid_view_append)

lemma length_read_bytes: "valid_view h a \<Longrightarrow> length (read_bytes h a) = byteLength a"
  by (auto simp: valid_view_def read_bytes_def)

lemma read_bytes_fresh:
  "length bs = n \<Longrightarrow>
   read_bytes (h @ bs # ext) \<lparr>buffer = length h, byteOffset = 0, byteLength = n\<rparr> = bs"
  by (simp add: read_bytes_def read_buffer_def nth_append)

lemma valid_view_fresh:
  "valid_view (h @ bs # ext) \<lparr>buffer = length h, byteOffset = 0, byteLength = length bs\<rparr>"
  by (simp add: valid_view_def read_buffer_def nth_append)

lemma valueToUint8Array_utf8:
  "valueToUint8Array h (JSString s) None =
     (Inr \<lparr>buffer = length h, byteOffset = 0, byteLength = length (TextEncoder_encode s)\<rparr>,
      h @ [TextEncoder_encode s])"
  by (simp add: new_Uint8Array_def)

lemma valueToUint8Array_hex:
  "valueToUint8Array h (JSString s) (Some ''hex'') =
     (case String_match s of
        None \<Rightarrow> (Inl (Error ''Value is not a valid hex string''), h)
      | Some ms \<Rightarrow>
          (Inr \<lparr>buffer = length h, byteOffset = 0, byteLength = length ms\<rparr>,
           h @ [map ToUint8 (map parseInt16 ms)]))"
  by (simp add: new_Uint8Array_def split: option.splits)

lemma hex_bytes_eq:
  "hex_bytes s =
     (case String_match s of
        None \<Rightarrow> Inl (Error ''Value is not a valid hex string'')
      | Some ms \<Rightarrow> Inr (map ToUint8 (map parseInt16 ms)))"
  unfolding hex_bytes_def valueToUint8Array_hex
  by (simp add: result_bytes_def read_bytes_def read_buffer_def split: option.splits)

lemma result_bytes_hex: "result_bytes (valueToUint8Array h (JSString s) (Some ''hex'')) = hex_bytes s"
  unfolding hex_bytes_eq valueToUint8Array_hex
  by (simp add: result_bytes_def read_bytes_fresh split: option.splits)

lemma valueToUint8Array_extends: "\<exists>ext. snd (valueToUint8Array h v f) = h @ ext"
  by (cases v) (simp_all add: new_Uint8Array_def split: option.splits)

lemma valueToUint8Array_ok:
  assumes "valueToUint8Array h v f = (Inr a, h')" and "valid_value h v"
  shows "valid_view h' a"
  using assms
  by (cases v) (auto simp: new_Uint8Array_def valid_view_def read_buffer_def nth_append
      view_of_ArrayBuffer_def split: option.splits if_splits)

lemma result_bytes_append:
  assumes "valid_value h v"
  shows "result_bytes (valueToUint8Array (h @ ext) v f) = result_bytes (valueToUint8Array h v f)"
  using assms
  by (cases v) (auto simp: new_Uint8Array_def result_bytes_def read_bytes_def read_buffer_def nth_append
      valid_view_def view_of_ArrayBuffer_def split: option.splits if_splits)

lemma TypedArray_set_fresh:
  assumes "byteLength src + off \<le> n" and "length z = n"
  shows "TypedArray_set (h @ [z]) \<lparr>buffer = length h, byteOffset = 0, byteLength = n\<rparr> src off =
     Inr (h @ [take off z @ read_bytes (h @ [z]) src
               @ drop (off + length (read_bytes (h @ [z]) src)) z])"
  using assms by (simp add: TypedArray_set_def read_buffer_def Let_def)

lemma concatUint8Arrays_fresh:
  "\<exists>x. concatUint8Arrays h arr1 arr2 =
     (Inr \<lparr>buffer = length h, byteOffset = 0, byteLength = byteLength arr1 + byteLength arr2\<rparr>,
      h @ [x])"
  by (simp add: concatUint8Arrays_def new_Uint8Array_def TypedArray_set_def read_buffer_def Let_def)

lemma concatUint8Arrays_valid:
  assumes "valid_view h arr1" and "valid_view h arr2"
  shows "concatUint8Arrays h arr1 arr2 =
     (Inr \<lparr>buffer = length h, byteOffset = 0, byteLength = byteLength arr1 + byteLength arr2\<rparr>,
      h @ [read_bytes h arr1 @ read_bytes h arr2])"
proof -
  have b: "buffer arr1 < length h" "buffer arr2 < length h"
    using assms by (simp_all add: valid_view_def)
  have l: "length (read_bytes h arr1) = byteLength arr1" "length (read_bytes h arr2) = byteLength arr2"
    using assms by (simp_all add: length_read_bytes)
  show ?thesis
    using b l
    by (simp add: concatUint8Arrays_def new_Uint8Array_def TypedArray_set_def read_buffer_def Let_def
        read_bytes_append)
qed

subsection \<open>What \<open>verifyKey\<close> computes\<close>

lemma verifyKey_try_body_error:
  assumes "valueToUint8Array (h @ [TextEncoder_encode ts]) body None = (Inl e, h2)"
  shows "verifyKey_try P h body sig ts key = (Inl e, h2)"
  using assms by (simp add: verifyKey_try_def valueToUint8Array_utf8 del: valueToUint8Array.simps)

text \<open>After the first three statements: the message is a fresh array.\<close>

lemma verifyKey_try_message:
  assumes b: "valueToUint8Array (h @ [TextEncoder_encode ts]) body None = (Inr bodyData, h2)"
  obtains x where
    "concatUint8Arrays h2
       \<lparr>buffer = length h, byteOffset = 0, byteLength = length (TextEncoder_encode ts)\<rparr> bodyData =
     (Inr \<lparr>buffer = length h2, byteOffset = 0,
           byteLength = length (TextEncoder_encode ts) + byteLength bodyData\<rparr>, h2 @ [x])"
    and "valid_value h body \<Longrightarrow>
         x = TextEncoder_encode ts @ read_bytes h2 bodyData \<and>
         result_bytes (valueToUint8Array h body None) = Inr (read_bytes h2 bodyData)"
proof -
  let ?T = "TextEncoder_encode ts"
  let ?t = "\<lparr>buffer = length h, byteOffset = 0, byteLength = length ?T\<rparr>"
  obtain ext where h2: "h2 = (h @ [?T]) @ ext"
    using valueToUint8Array_extends [of "h @ [?T]" body None] b by auto
  show thesis
  proof (cases "valid_value h body")
    case False
    obtain x where "concatUint8Arrays h2 ?t bodyData =
        (Inr \<lparr>buffer = length h2, byteOffset = 0,
              byteLength = byteLength ?t + byteLength bodyData\<rparr>, h2 @ [x])"
      using concatUint8Arrays_fresh [of h2 ?t bodyData] by blast
    with False that show ?thesis by simp
  next
    case True
    then have v1: "valid_value (h @ [?T]) body" by (rule valid_value_append)
    have vb: "valid_view h2 bodyData" using valueToUint8Array_ok [OF b v1] .
    have vt: "valid_view h2 ?t" unfolding h2 by (simp add: valid_view_fresh)
    have rt: "read_bytes h2 ?t = ?T" unfolding h2 by (simp add: read_bytes_fresh)
    have "result_bytes (valueToUint8Array h body None) =
          result_bytes (valueToUint8Array (h @ [?T]) body None)"
      using result_bytes_append [OF True] by simp
    then have rb: "result_bytes (valueToUint8Array h body None) = Inr (read_bytes h2 bodyData)"
      by (simp add: b result_bytes_def)
    have "concatUint8Arrays h2 ?t bodyData =
        (Inr \<lparr>buffer = length h2, byteOffset = 0,
              byteLength = length ?T + byteLength bodyData\<rparr>, h2 @ [?T @ read_bytes h2 bodyData])"
      using concatUint8Arrays_valid [OF vt vb] rt by simp
    with rb that show ?thesis by simp
  qed
qed

lemma valueToUint8Array_error_iff:
  "(\<exists>e. fst (valueToUint8Array h v None) = Inl e) \<longleftrightarrow> (\<exists>t. v = JSOther t)"
  by (cases v) (simp_all add: new_Uint8Array_def)

lemma verifyKey_other: "fst (verifyKey P h (JSOther t) sig ts key) = Inr False"
  by (simp add: verifyKey_def verifyKey_try_def new_Uint8Array_def)

lemma verifyKey_results:
  assumes nb: "\<forall>t. body \<noteq> JSOther t"
  shows "\<exists>m. (\<forall>(P :: 'k subtle_crypto) sig key.
                 fst (verifyKey P h body sig ts key) = Inr (outcome P key sig m)) \<and>
             (\<forall>bb. valid_value h body \<longrightarrow>
                   result_bytes (valueToUint8Array h body None) = Inr bb \<longrightarrow>
                   m = TextEncoder_encode ts @ bb)"
proof -
  let ?T = "TextEncoder_encode ts"
  obtain r2 h2 where b: "valueToUint8Array (h @ [?T]) body None = (r2, h2)"
    by (cases "valueToUint8Array (h @ [?T]) body None")
  from nb valueToUint8Array_error_iff [of "h @ [?T]" body] b
  obtain bodyData where "r2 = Inr bodyData" by (cases r2) auto
  with b have b': "valueToUint8Array (h @ [?T]) body None = (Inr bodyData, h2)" by simp
  let ?m = "\<lparr>buffer = length h2, byteOffset = 0, byteLength = length ?T + byteLength bodyData\<rparr>"
  from verifyKey_try_message [OF b'] obtain x where
    c: "concatUint8Arrays h2
          \<lparr>buffer = length h, byteOffset = 0, byteLength = length ?T\<rparr> bodyData = (Inr ?m, h2 @ [x])"
    and x: "valid_value h body \<Longrightarrow>
       x = ?T @ read_bytes h2 bodyData \<and>
       result_bytes (valueToUint8Array h body None) = Inr (read_bytes h2 bodyData)"
    by blast
  have r: "read_bytes ((h2 @ [x]) @ ext) ?m = read_bytes (h2 @ [x]) ?m" for ext
    by (rule read_bytes_append) simp
  have r1: "read_bytes (h2 @ [x, y]) ?m = read_bytes (h2 @ [x]) ?m" for y
    using r [of "[y]"] by simp
  have r2: "read_bytes (h2 @ [x, y, z]) ?m = read_bytes (h2 @ [x]) ?m" for y z
    using r [of "[y, z]"] by simp
  have f1: "read_bytes (hh @ [y, z]) \<lparr>buffer = Suc (length hh), byteOffset = 0, byteLength = n\<rparr> = z"
    if "length z = n" for hh :: heap and y z n
    using that by (simp add: read_bytes_def read_buffer_def nth_append)
  have f2: "read_bytes (hh @ [y, w, z])
      \<lparr>buffer = Suc (Suc (length hh)), byteOffset = 0, byteLength = n\<rparr> = z"
    if "length z = n" for hh :: heap and y w z n
    using that by (simp add: read_bytes_def read_buffer_def nth_append)
  have H: "fst (verifyKey P h body sig ts (KeyHandle k)) =
       Inr (outcome P (KeyHandle k) sig (read_bytes (h2 @ [x]) ?m))"
    for P :: "'k subtle_crypto" and sig k
    by (simp add: outcome_def verifyKey_def verifyKey_try_def valueToUint8Array_utf8 b' c
        valueToUint8Array_hex hex_bytes_eq f1 r1
        del: valueToUint8Array.simps split: option.splits sum.splits)
  have S: "fst (verifyKey P h body sig ts (KeyString s)) =
       Inr (outcome P (KeyString s) sig (read_bytes (h2 @ [x]) ?m))"
    for P :: "'k subtle_crypto" and sig s
    by (simp add: outcome_def verifyKey_def verifyKey_try_def valueToUint8Array_utf8 b' c
        valueToUint8Array_hex hex_bytes_eq f1 f2 r1 r2
        del: valueToUint8Array.simps split: option.splits sum.splits)
  have A: "fst (verifyKey P h body sig ts key) = Inr (outcome P key sig (read_bytes (h2 @ [x]) ?m))"
    for P :: "'k subtle_crypto" and sig key
    by (cases key) (simp_all only: H S)
  have B: "read_bytes (h2 @ [x]) ?m = ?T @ bb"
    if v: "valid_value h body" and bb: "result_bytes (valueToUint8Array h body None) = Inr bb"
    for bb
  proof -
    from x [OF v] bb have "x = ?T @ bb" and "bb = read_bytes h2 bodyData" by simp_all
    moreover have "valid_view h2 bodyData"
      using valueToUint8Array_ok [OF b' valid_value_append [OF v]] .
    ultimately show ?thesis
      by (simp add: read_bytes_fresh length_read_bytes)
  qed
  from A B show ?thesis by blast
qed

lemma verifyKey_fulfilled: "\<exists>b. fst (verifyKey P h rawBody signature timestamp clientPublicKey) = Inr b"
  by (cases "verifyKey_try P h rawBody signature timestamp clientPublicKey")
     (auto simp: verifyKey_def split: sum.splits)

lemma verifyKey_outcome_cases:
  obtains t where "rawBody = JSOther t"
  | m where "\<forall>t. rawBody \<noteq> JSOther t"
      and "\<And>(P :: 'k subtle_crypto) sig key.
              fst (verifyKey P h rawBody sig ts key) = Inr (outcome P key sig m)"
      and "\<And>bb. valid_value h rawBody \<Longrightarrow>
              result_bytes (valueToUint8Array h rawBody None) = Inr bb \<Longrightarrow>
              m = TextEncoder_encode ts @ bb"
proof (cases "\<exists>t. rawBody = JSOther t")
  case True
  then show ?thesis using that(1) by blast
next
  case False
  then have nb: "\<forall>t. rawBody \<noteq> JSOther t" by simp
  from verifyKey_results [OF nb, where h = h and ts = ts and 'k = 'k] obtain m where
    "(\<forall>(P :: 'k subtle_crypto) sig key.
        fst (verifyKey P h rawBody sig ts key) = Inr (outcome P key sig m)) \<and>
     (\<forall>bb. valid_value h rawBody \<longrightarrow>
           result_bytes (valueToUint8Array h rawBody None) = Inr bb \<longrightarrow>
           m = TextEncoder_encode ts @ bb)" ..
  then show ?thesis using that(2) [OF nb, of m] by blast
qed

lemma result_bytes_fresh:
  "result_bytes (case new_Uint8Array h bs of (a, h') \<Rightarrow> (Inr a, h')) = Inr bs"
  by (simp add: result_bytes_def new_Uint8Array_def read_bytes_fresh)

lemma result_bytes_passthrough:
  "result_bytes (valueToUint8Array h (JSUint8Array a) f) = Inr (read_bytes h a)"
  "result_bytes (valueToUint8Array h (JSBuffer a) f) = Inr (read_bytes h a)"
  "result_bytes (valueToUint8Array h (JSArrayBuffer b) f) = Inr (read_buffer h b)"
  "result_bytes (valueToUint8Array h (JSString s) None) = Inr (TextEncoder_encode s)"
  "result_bytes (valueToUint8Array h JSNull f) = Inr []"
  "result_bytes (valueToUint8Array h JSUndefined f) = Inr []"
  by (simp_all add: result_bytes_fresh)
     (simp_all add: result_bytes_def read_bytes_def view_of_ArrayBuffer_def)

lemma verifyKey_ignores_importKey:
  "verifyKey (P\<lparr>importKey := f\<rparr>) h rawBody signature timestamp (KeyHandle k) =
   verifyKey P h rawBody signature timestamp (KeyHandle k)"
  by (simp add: verifyKey_def verifyKey_try_def new_Uint8Array_def split: prod.splits sum.splits)

subsection \<open>Decoding under the format \<open>"hex"\<close>\<close>

lemma match_all_Nil_iff: "match_all s = [] \<longleftrightarrow> list_all isLineTerminator s"
  by (induction s rule: match_all.induct) auto

lemma String_match_None_iff: "String_match s = None \<longleftrightarrow> list_all isLineTerminator s"
proof -
  have "String_match s = None \<longleftrightarrow> match_all s = []"
    by (simp add: String_match_def split: list.splits)
  then show ?thesis by (simp only: match_all_Nil_iff)
qed

lemma String_match_Some: "String_match s = Some ms \<Longrightarrow> ms = match_all s"
  by (simp add: String_match_def split: list.splits)

lemma hex_bytes_cases:
  "hex_bytes s =
     (if list_all isLineTerminator s then Inl (Error ''Value is not a valid hex string'')
      else Inr (map (\<lambda>chunk. ToUint8 (parseInt16 chunk)) (match_all s)))"
proof (cases "String_match s")
  case None
  then show ?thesis by (simp add: hex_bytes_eq String_match_None_iff [symmetric])
next
  case (Some ms)
  then have "\<not> list_all isLineTerminator s"
    using String_match_None_iff [of s] by simp
  with Some String_match_Some [OF Some] show ?thesis
    by (simp add: hex_bytes_eq comp_def)
qed

lemma match_all_pairs:
  "\<not> list_ex isLineTerminator s \<Longrightarrow>
   length (match_all s) = (length s + 1) div 2 \<and>
   (\<forall>i < length (match_all s). match_all s ! i = take 2 (drop (2 * i) s))"
proof (induction s rule: match_all.induct)
  case 1
  then show ?case by simp
next
  case (2 c)
  then show ?case by simp
next
  case (3 c d cs)
  then have n: "\<not> isLineTerminator c" "\<not> isLineTerminator d" "\<not> list_ex isLineTerminator cs"
    by simp_all
  from 3 n have IH: "length (match_all cs) = (length cs + 1) div 2"
    "\<forall>i < length (match_all cs). match_all cs ! i = take 2 (drop (2 * i) cs)"
    by simp_all
  have "match_all (c # d # cs) ! i = take 2 (drop (2 * i) (c # d # cs))"
    if "i < length (match_all (c # d # cs))" for i
  proof (cases i)
    case 0
    with n show ?thesis by simp
  next
    case (Suc j)
    with that n IH show ?thesis by simp
  qed
  with n IH show ?case by simp
qed


lemma isHexDigit_plain:
  "isHexDigit c \<Longrightarrow> \<not> isStrWhiteSpaceChar c \<and> c \<noteq> 0x2D \<and> c \<noteq> 0x2B \<and> c \<noteq> 0x78 \<and> c \<noteq> 0x58"
  by (auto simp: isHexDigit_def hex_digit_def isStrWhiteSpaceChar_def isLineTerminator_def
      word_le_nat_alt split: if_splits)

lemma parseInt16_hex:
  assumes "Z \<noteq> []" and "list_all isHexDigit Z"
  shows "parseInt16 Z = Some (int (hex_value Z))"
proof -
  from assms obtain c cs where Z: "Z = c # cs" by (cases Z) auto
  with assms have c: "isHexDigit c" and cs: "list_all isHexDigit cs" by simp_all
  note p = isHexDigit_plain [OF c]
  have d: "dropWhile isStrWhiteSpaceChar Z = Z" using p Z by simp
  have x: "\<not> (take 2 Z = [0x30, 0x78] \<or> take 2 Z = [0x30, 0x58])"
  proof (cases cs)
    case Nil
    with Z show ?thesis by simp
  next
    case (Cons e es)
    with cs have "isHexDigit e" by simp
    from isHexDigit_plain [OF this] Z Cons show ?thesis by simp
  qed
  have t: "takeWhile isHexDigit Z = Z"
    using assms by (simp add: takeWhile_eq_all_conv list_all_iff)
  have h: "hd Z \<noteq> 0x2D" "hd Z \<noteq> 0x2B" using p Z by simp_all
  show ?thesis
    unfolding parseInt16_def d Let_def using h x assms(1) by (simp add: t)
qed




lemma verifyKey_extends: "\<exists>ext. snd (verifyKey P h rawBody signature timestamp key) = h @ ext"
proof -
  let ?T = "TextEncoder_encode timestamp"
  obtain r2 h2 where b: "valueToUint8Array (h @ [?T]) rawBody None = (r2, h2)"
    by (cases "valueToUint8Array (h @ [?T]) rawBody None")
  obtain e2 where h2: "h2 = (h @ [?T]) @ e2"
    using valueToUint8Array_extends [of "h @ [?T]" rawBody None] b by auto
  show ?thesis
  proof (cases r2)
    case (Inl e)
    with b h2 show ?thesis
      using verifyKey_try_body_error [of h timestamp rawBody e h2 P signature key]
      by (simp add: verifyKey_def del: valueToUint8Array.simps)
  next
    case (Inr bodyData)
    with b have b': "valueToUint8Array (h @ [?T]) rawBody None = (Inr bodyData, h2)" by simp
    from verifyKey_try_message [OF b'] obtain x where
      c: "concatUint8Arrays h2
            \<lparr>buffer = length h, byteOffset = 0, byteLength = length ?T\<rparr> bodyData =
          (Inr \<lparr>buffer = length h2, byteOffset = 0,
                byteLength = length ?T + byteLength bodyData\<rparr>, h2 @ [x])"
      by blast
    have "\<exists>ext. snd (verifyKey P h rawBody signature timestamp key) = h2 @ ext"
      by (cases key)
         (simp_all add: verifyKey_def verifyKey_try_def valueToUint8Array_utf8 b' c
           valueToUint8Array_hex
           del: valueToUint8Array.simps split: option.splits sum.splits)
    then show ?thesis unfolding h2 by auto
  qed
qed

lemma toy_values:
  "TextEncoder_encode (ascii ''1'') = [0x31]"
  "TextEncoder_encode (ascii ''2'') = [0x32]"
  "hex_bytes (ascii ''31320b0c'') = Inr [0x31, 0x32, 0x0B, 0x0C]"
  "hex_bytes (ascii ''0b0c'') = Inr [0x0B, 0x0C]"
  by code_simp+






section \<open>The claims\<close>

subsection \<open>C1: \<open>verifyKey\<close> never raises\<close>

text \<open>
  C1. For every provider, store, raw body (of an accepted or an unaccepted type),
  signature, timestamp and public key (string or handle), the promise returned by
  \<open>verifyKey\<close> is fulfilled with a boolean and never rejected. Whenever the \<open>try\<close>
  block throws, the boolean is \<open>false\<close>; in particular when the signature or the key
  string makes the normalizer throw, when the body has an unsupported type, when the
  provider refuses to import the decoded key, and when the verification primitive fails
  on the signature and the message.
\<close>

theorem verifyKey_never_raises:
  fixes subtleCrypto :: "'k subtle_crypto"
  shows "(\<exists>b. fst (verifyKey subtleCrypto h rawBody signature timestamp clientPublicKey) = Inr b)
    \<and> ((\<exists>e. fst (verifyKey_try subtleCrypto h rawBody signature timestamp clientPublicKey) = Inl e)
         \<longrightarrow> fst (verifyKey subtleCrypto h rawBody signature timestamp clientPublicKey) = Inr False)
    \<and> ((\<exists>e. hex_bytes signature = Inl e)
         \<longrightarrow> fst (verifyKey subtleCrypto h rawBody signature timestamp clientPublicKey) = Inr False)
    \<and> ((\<exists>e. hex_bytes keyString = Inl e)
         \<longrightarrow> fst (verifyKey subtleCrypto h rawBody signature timestamp (KeyString keyString))
             = Inr False)
    \<and> ((\<exists>e h'. fst (valueToUint8Array h' rawBody None) = Inl e)
         \<longrightarrow> fst (verifyKey subtleCrypto h rawBody signature timestamp clientPublicKey) = Inr False)
    \<and> ((\<exists>keyData e. hex_bytes keyString = Inr keyData \<and>
            importKey subtleCrypto ''raw'' keyData ed25519_algorithm False [''verify''] = Inl e)
         \<longrightarrow> fst (verifyKey subtleCrypto h rawBody signature timestamp (KeyString keyString))
             = Inr False)
    \<and> ((\<exists>bodyBytes sb e. valid_value h rawBody \<and>
            result_bytes (valueToUint8Array h rawBody None) = Inr bodyBytes \<and>
            hex_bytes signature = Inr sb \<and>
            verify subtleCrypto ''ed25519'' k sb (TextEncoder_encode timestamp @ bodyBytes) = Inl e)
         \<longrightarrow> fst (verifyKey subtleCrypto h rawBody signature timestamp (KeyHandle k)) = Inr False)"
proof (cases rule: verifyKey_outcome_cases
    [where rawBody = rawBody and h = h and ts = timestamp and 'k = 'k])
  case (1 t)
  then show ?thesis
    by (clarsimp simp: verifyKey_other) (rule exI [of _ False], simp)
next
  case (2 m)
  note A = 2(2) and B = 2(3)
  have ne: "\<not> (\<exists>e h'. fst (valueToUint8Array h' rawBody None) = Inl e)"
    using 2(1) valueToUint8Array_error_iff by blast
  have 1: "\<exists>b. fst (verifyKey subtleCrypto h rawBody signature timestamp clientPublicKey) = Inr b"
    by (rule verifyKey_fulfilled)
  have 2: "(\<exists>e. fst (verifyKey_try subtleCrypto h rawBody signature timestamp clientPublicKey) = Inl e)
         \<longrightarrow> fst (verifyKey subtleCrypto h rawBody signature timestamp clientPublicKey) = Inr False"
    by (cases "verifyKey_try subtleCrypto h rawBody signature timestamp clientPublicKey")
       (auto simp: verifyKey_def)
  have 3: "(\<exists>e. hex_bytes signature = Inl e)
         \<longrightarrow> fst (verifyKey subtleCrypto h rawBody signature timestamp clientPublicKey) = Inr False"
    by (clarsimp simp: A outcome_def split: sum.splits)
  have 4: "(\<exists>e. hex_bytes keyString = Inl e)
         \<longrightarrow> fst (verifyKey subtleCrypto h rawBody signature timestamp (KeyString keyString))
             = Inr False"
    by (clarsimp simp: A outcome_def)
  from ne have 5: "(\<exists>e h'. fst (valueToUint8Array h' rawBody None) = Inl e)
         \<longrightarrow> fst (verifyKey subtleCrypto h rawBody signature timestamp clientPublicKey) = Inr False"
    by simp
  have 6: "(\<exists>keyData e. hex_bytes keyString = Inr keyData \<and>
            importKey subtleCrypto ''raw'' keyData ed25519_algorithm False [''verify''] = Inl e)
         \<longrightarrow> fst (verifyKey subtleCrypto h rawBody signature timestamp (KeyString keyString))
             = Inr False"
    by (clarsimp simp: A outcome_def)
  have 7: "(\<exists>bodyBytes sb e. valid_value h rawBody \<and>
            result_bytes (valueToUint8Array h rawBody None) = Inr bodyBytes \<and>
            hex_bytes signature = Inr sb \<and>
            verify subtleCrypto ''ed25519'' k sb (TextEncoder_encode timestamp @ bodyBytes) = Inl e)
         \<longrightarrow> fst (verifyKey subtleCrypto h rawBody signature timestamp (KeyHandle k)) = Inr False"
  proof (intro impI, elim exE conjE)
    fix bodyBytes sb e
    assume v: "valid_value h rawBody"
      and b: "result_bytes (valueToUint8Array h rawBody None) = Inr bodyBytes"
      and s: "hex_bytes signature = Inr sb"
      and f: "verify subtleCrypto ''ed25519'' k sb (TextEncoder_encode timestamp @ bodyBytes) = Inl e"
    from B [OF v b] have "m = TextEncoder_encode timestamp @ bodyBytes" .
    with s f show "fst (verifyKey subtleCrypto h rawBody signature timestamp (KeyHandle k)) = Inr False"
      by (simp add: A outcome_def)
  qed
  show ?thesis
    by (intro conjI) (fact 1 2 3 4 5 6 7)+
qed

theorem verifyKey_never_raises_witness:
  "(\<exists>e. fst (verifyKey_try failing_subtle [] (JSOther ''number'') [] (ascii ''1'') (KeyString []))
      = Inl e)
   \<and> (\<exists>e. hex_bytes [] = Inl e)
   \<and> (\<exists>e h'. fst (valueToUint8Array h' (JSOther ''number'') None) = Inl e)
   \<and> fst (verifyKey failing_subtle [] (JSOther ''number'') [] (ascii ''1'') (KeyString []))
       = Inr False
   \<and> (\<exists>keyData e. hex_bytes (ascii ''0b'') = Inr keyData \<and>
         importKey toy_subtle ''raw'' keyData ed25519_algorithm False [''verify''] = Inl e)
   \<and> fst (verifyKey toy_subtle [] (JSString (ascii ''2'')) (ascii ''31320b'') (ascii ''1'')
        (KeyString (ascii ''0b''))) = Inr False
   \<and> (\<exists>bodyBytes sb e. valid_value [] (JSString (ascii ''2'')) \<and>
         result_bytes (valueToUint8Array [] (JSString (ascii ''2'')) None) = Inr bodyBytes \<and>
         hex_bytes (ascii ''31320b0c'') = Inr sb \<and>
         verify failing_subtle ''ed25519'' [0x0B, 0x0C] sb
           (TextEncoder_encode (ascii ''1'') @ bodyBytes) = Inl e)
   \<and> fst (verifyKey failing_subtle [] (JSString (ascii ''2'')) (ascii ''31320b0c'') (ascii ''1'')
        (KeyHandle [0x0B, 0x0C])) = Inr False"
proof -
  note T = verifyKey_never_raises [of failing_subtle "[]" "JSOther ''number''" "[]" "ascii ''1''"
      "KeyString []" "[]" "[]"]
  note U = verifyKey_never_raises [of toy_subtle "[]" "JSString (ascii ''2'')" "ascii ''31320b''"
      "ascii ''1''" "KeyString (ascii ''0b'')" "ascii ''0b''" "[]"]
  note V = verifyKey_never_raises [of failing_subtle "[]" "JSString (ascii ''2'')"
      "ascii ''31320b0c''" "ascii ''1''" "KeyHandle [0x0B, 0x0C]" "[]" "[0x0B, 0x0C]"]
  have "hex_bytes [] = Inl (Error ''Value is not a valid hex string'')"
    by (simp add: hex_bytes_eq String_match_def)
  then have a2: "\<exists>e. hex_bytes [] = Inl e" by blast
  have a1: "\<exists>e. fst (verifyKey_try failing_subtle [] (JSOther ''number'') [] (ascii ''1'')
      (KeyString [])) = Inl e"
    by (simp add: verifyKey_try_def new_Uint8Array_def)
  have a3: "\<exists>e h'. fst (valueToUint8Array h' (JSOther ''number'') None) = Inl e"
    by simp
  have a4: "fst (verifyKey failing_subtle [] (JSOther ''number'') [] (ascii ''1'') (KeyString []))
       = Inr False"
    using T [THEN conjunct2, THEN conjunct1] a1 by blast
  have kb: "hex_bytes (ascii ''0b'') = Inr [0x0B]" by code_simp
  have ik: "importKey toy_subtle ''raw'' [0x0B] ed25519_algorithm False [''verify'']
      = Inl (DOMException ''DataError'')"
    by (simp add: toy_subtle_def)
  from kb ik have a5: "\<exists>keyData e. hex_bytes (ascii ''0b'') = Inr keyData \<and>
         importKey toy_subtle ''raw'' keyData ed25519_algorithm False [''verify''] = Inl e"
    by blast
  have a6: "fst (verifyKey toy_subtle [] (JSString (ascii ''2'')) (ascii ''31320b'') (ascii ''1'')
        (KeyString (ascii ''0b''))) = Inr False"
    using U [THEN conjunct2, THEN conjunct2, THEN conjunct2, THEN conjunct2, THEN conjunct2,
        THEN conjunct1] a5 by blast
  have vv: "valid_value [] (JSString (ascii ''2''))" by simp
  have rb: "result_bytes (valueToUint8Array [] (JSString (ascii ''2'')) None) = Inr [0x32]"
    by (simp only: result_bytes_passthrough toy_values)
  have vf: "verify failing_subtle ''ed25519'' [0x0B, 0x0C] [0x31, 0x32, 0x0B, 0x0C]
           (TextEncoder_encode (ascii ''1'') @ [0x32]) = Inl (DOMException ''NotSupportedError'')"
    by (simp add: failing_subtle_def)
  from vv rb toy_values(3) vf have a7: "\<exists>bodyBytes sb e. valid_value [] (JSString (ascii ''2'')) \<and>
         result_bytes (valueToUint8Array [] (JSString (ascii ''2'')) None) = Inr bodyBytes \<and>
         hex_bytes (ascii ''31320b0c'') = Inr sb \<and>
         verify failing_subtle ''ed25519'' [0x0B, 0x0C] sb
           (TextEncoder_encode (ascii ''1'') @ bodyBytes) = Inl e"
    by blast
  have a8: "fst (verifyKey failing_subtle [] (JSString (ascii ''2'')) (ascii ''31320b0c'')
        (ascii ''1'') (KeyHandle [0x0B, 0x0C])) = Inr False"
    using V [THEN conjunct2, THEN conjunct2, THEN conjunct2, THEN conjunct2, THEN conjunct2,
        THEN conjunct2] a7 by blast
  show ?thesis
    by (intro conjI) (fact a1 a2 a3 a4 a5 a6 a7 a8)+
qed

subsection \<open>C2: the message is the timestamp bytes followed by the body bytes\<close>

text \<open>
  C2. For every two byte sequences \<open>A\<close> and \<open>B\<close> (views into the store),
  \<open>concatUint8Arrays\<close> returns a new array, in a buffer that did not exist before, of
  length \<open>len(A) + len(B)\<close>, whose bytes are those of \<open>A\<close> immediately followed by
  those of \<open>B\<close> and nothing else. And \<open>verifyKey\<close> hands the primitive the message
  made of the timestamp bytes followed by the body bytes, in that order, whether the key
  is a handle or a string.
\<close>

theorem concatUint8Arrays_appends:
  fixes P :: "'k subtle_crypto"
  shows "(valid_view h A \<and> valid_view h B \<longrightarrow>
      (\<exists>merged h'. concatUint8Arrays h A B = (Inr merged, h') \<and>
         buffer merged = length h \<and>
         byteLength merged = byteLength A + byteLength B \<and>
         length (read_bytes h' merged) = length (read_bytes h A) + length (read_bytes h B) \<and>
         read_bytes h' merged = read_bytes h A @ read_bytes h B))
   \<and> (valid_value h rawBody \<and> result_bytes (valueToUint8Array h rawBody None) = Inr bodyBytes \<and>
        hex_bytes signature = Inr sb \<longrightarrow>
        fst (verifyKey P h rawBody signature timestamp (KeyHandle k)) =
          Inr (case verify P ''ed25519'' k sb (TextEncoder_encode timestamp @ bodyBytes) of
                 Inl e \<Rightarrow> False | Inr b \<Rightarrow> b))
   \<and> (valid_value h rawBody \<and> result_bytes (valueToUint8Array h rawBody None) = Inr bodyBytes \<and>
        hex_bytes signature = Inr sb \<and> hex_bytes keyString = Inr kb \<and>
        importKey P ''raw'' kb ed25519_algorithm False [''verify''] = Inr k \<longrightarrow>
        fst (verifyKey P h rawBody signature timestamp (KeyString keyString)) =
          Inr (case verify P ''ed25519'' k sb (TextEncoder_encode timestamp @ bodyBytes) of
                 Inl e \<Rightarrow> False | Inr b \<Rightarrow> b))"
proof (intro conjI impI)
  assume v: "valid_view h A \<and> valid_view h B"
  then have "concatUint8Arrays h A B =
     (Inr \<lparr>buffer = length h, byteOffset = 0, byteLength = byteLength A + byteLength B\<rparr>,
      h @ [read_bytes h A @ read_bytes h B])"
    by (simp add: concatUint8Arrays_valid)
  moreover have "length (read_bytes h A @ read_bytes h B) = byteLength A + byteLength B"
    using v by (simp add: length_read_bytes)
  ultimately show "\<exists>merged h'. concatUint8Arrays h A B = (Inr merged, h') \<and>
         buffer merged = length h \<and>
         byteLength merged = byteLength A + byteLength B \<and>
         length (read_bytes h' merged) = length (read_bytes h A) + length (read_bytes h B) \<and>
         read_bytes h' merged = read_bytes h A @ read_bytes h B"
    by (simp add: read_bytes_fresh)
next
  assume a: "valid_value h rawBody \<and> result_bytes (valueToUint8Array h rawBody None) = Inr bodyBytes \<and>
        hex_bytes signature = Inr sb"
  show "fst (verifyKey P h rawBody signature timestamp (KeyHandle k)) =
          Inr (case verify P ''ed25519'' k sb (TextEncoder_encode timestamp @ bodyBytes) of
                 Inl e \<Rightarrow> False | Inr b \<Rightarrow> b)"
  proof (cases rule: verifyKey_outcome_cases
      [where rawBody = rawBody and h = h and ts = timestamp and 'k = 'k])
    case (1 t)
    with a show ?thesis by (simp add: result_bytes_def)
  next
    case (2 m)
    from 2(3) a have "m = TextEncoder_encode timestamp @ bodyBytes" by blast
    with a show ?thesis by (simp add: 2(2) outcome_def)
  qed
next
  assume a: "valid_value h rawBody \<and> result_bytes (valueToUint8Array h rawBody None) = Inr bodyBytes \<and>
        hex_bytes signature = Inr sb \<and> hex_bytes keyString = Inr kb \<and>
        importKey P ''raw'' kb ed25519_algorithm False [''verify''] = Inr k"
  show "fst (verifyKey P h rawBody signature timestamp (KeyString keyString)) =
          Inr (case verify P ''ed25519'' k sb (TextEncoder_encode timestamp @ bodyBytes) of
                 Inl e \<Rightarrow> False | Inr b \<Rightarrow> b)"
  proof (cases rule: verifyKey_outcome_cases
      [where rawBody = rawBody and h = h and ts = timestamp and 'k = 'k])
    case (1 t)
    with a show ?thesis by (simp add: result_bytes_def)
  next
    case (2 m)
    from 2(3) a have "m = TextEncoder_encode timestamp @ bodyBytes" by blast
    with a show ?thesis by (simp add: 2(2) outcome_def)
  qed
qed

theorem concatUint8Arrays_appends_witness:
  "valid_view [[1, 2, 3], [4, 5, 6, 7]] \<lparr>buffer = 0, byteOffset = 1, byteLength = 2\<rparr>
   \<and> valid_view [[1, 2, 3], [4, 5, 6, 7]] \<lparr>buffer = 1, byteOffset = 0, byteLength = 3\<rparr>
   \<and> (\<exists>merged h'.
         concatUint8Arrays [[1, 2, 3], [4, 5, 6, 7]]
           \<lparr>buffer = 0, byteOffset = 1, byteLength = 2\<rparr>
           \<lparr>buffer = 1, byteOffset = 0, byteLength = 3\<rparr> = (Inr merged, h') \<and>
         buffer merged = 2 \<and> byteLength merged = 5 \<and> read_bytes h' merged = [2, 3, 4, 5, 6])
   \<and> valid_value [[1, 2, 3], [4, 5, 6, 7]] (JSString (ascii ''2''))
   \<and> result_bytes (valueToUint8Array [[1, 2, 3], [4, 5, 6, 7]] (JSString (ascii ''2'')) None)
       = Inr [0x32]
   \<and> hex_bytes (ascii ''31320b0c'') = Inr [0x31, 0x32, 0x0B, 0x0C]
   \<and> hex_bytes (ascii ''0b0c'') = Inr [0x0B, 0x0C]
   \<and> importKey toy_subtle ''raw'' [0x0B, 0x0C] ed25519_algorithm False [''verify'']
       = Inr [0x0B, 0x0C]
   \<and> fst (verifyKey toy_subtle [[1, 2, 3], [4, 5, 6, 7]] (JSString (ascii ''2''))
        (ascii ''31320b0c'') (ascii ''1'') (KeyHandle [0x0B, 0x0C])) = Inr True
   \<and> fst (verifyKey toy_subtle [[1, 2, 3], [4, 5, 6, 7]] (JSString (ascii ''2''))
        (ascii ''31320b0c'') (ascii ''1'') (KeyString (ascii ''0b0c''))) = Inr True"
proof -
  let ?h = "[[1, 2, 3], [4, 5, 6, 7]] :: heap"
  let ?A = "\<lparr>buffer = 0, byteOffset = 1, byteLength = 2\<rparr>"
  let ?B = "\<lparr>buffer = 1, byteOffset = 0, byteLength = 3\<rparr>"
  have vA: "valid_view ?h ?A" and vB: "valid_view ?h ?B"
    by (simp_all add: valid_view_def read_buffer_def)
  have rA: "read_bytes ?h ?A = [2, 3]" and rB: "read_bytes ?h ?B = [4, 5, 6]"
    by (simp_all add: read_bytes_def read_buffer_def)
  have vb: "valid_value ?h (JSString (ascii ''2''))" by simp
  have rb: "result_bytes (valueToUint8Array ?h (JSString (ascii ''2'')) None) = Inr [0x32]"
    by (simp only: result_bytes_passthrough toy_values)
  have ik: "importKey toy_subtle ''raw'' [0x0B, 0x0C] ed25519_algorithm False [''verify'']
       = Inr [0x0B, 0x0C]"
    by (simp add: toy_subtle_def)
  have ok: "(case verify toy_subtle ''ed25519'' [0x0B, 0x0C] [0x31, 0x32, 0x0B, 0x0C]
               (TextEncoder_encode (ascii ''1'') @ [0x32]) of Inl e \<Rightarrow> False | Inr b \<Rightarrow> b) = True"
    by (simp add: toy_subtle_def toy_values)
  note T = concatUint8Arrays_appends [of ?h ?A ?B "JSString (ascii ''2'')" "[0x32]"
      "ascii ''31320b0c''" "[0x31, 0x32, 0x0B, 0x0C]" toy_subtle "ascii ''1''" "[0x0B, 0x0C]"
      "ascii ''0b0c''" "[0x0B, 0x0C]"]
  have c: "\<exists>merged h'. concatUint8Arrays ?h ?A ?B = (Inr merged, h') \<and>
         buffer merged = 2 \<and> byteLength merged = 5 \<and> read_bytes h' merged = [2, 3, 4, 5, 6]"
    using T [THEN conjunct1] vA vB rA rB by (auto simp: eval_nat_numeral)
  have k1: "fst (verifyKey toy_subtle ?h (JSString (ascii ''2'')) (ascii ''31320b0c'') (ascii ''1'')
        (KeyHandle [0x0B, 0x0C])) = Inr True"
    using T [THEN conjunct2, THEN conjunct1, THEN mp, OF conjI [OF vb conjI [OF rb toy_values(3)]]]
    by (simp only: ok)
  have k2: "fst (verifyKey toy_subtle ?h (JSString (ascii ''2'')) (ascii ''31320b0c'') (ascii ''1'')
        (KeyString (ascii ''0b0c''))) = Inr True"
    using T [THEN conjunct2, THEN conjunct2, THEN mp,
        OF conjI [OF vb conjI [OF rb conjI [OF toy_values(3) conjI [OF toy_values(4) ik]]]]]
    by (simp only: ok)
  show ?thesis
    by (intro conjI) (fact vA vB c vb rb toy_values ik k1 k2)+
qed

subsection \<open>C4: how the public key is resolved\<close>

text \<open>
  C4. When the public key is a string, \<open>verifyKey\<close> decodes it with the normalizer under
  the format \<open>"hex"\<close> and imports the bytes as a raw Ed25519 key that is not extractable
  and may only verify; the call then goes on exactly as it does with the imported
  handle, and it is false when the decoding or the import fails. This happens in every
  call: the function has no state in which a handle could be kept. When the public key
  is a handle, \<open>importKey\<close> plays no part, and the handle itself is what the primitive
  receives.
\<close>

theorem verifyKey_key_resolution:
  fixes P :: "'k subtle_crypto"
  shows "fst (verifyKey P h rawBody signature timestamp (KeyString s)) =
      (case hex_bytes s of
         Inl e \<Rightarrow> Inr False
       | Inr keyData \<Rightarrow>
           (case importKey P ''raw'' keyData
                   \<lparr>alg_name = ''ed25519'', alg_namedCurve = ''ed25519''\<rparr> False [''verify''] of
              Inl e \<Rightarrow> Inr False
            | Inr k \<Rightarrow> fst (verifyKey P h rawBody signature timestamp (KeyHandle k))))
    \<and> fst (verifyKey (P\<lparr>importKey := f\<rparr>) h rawBody signature timestamp (KeyHandle k)) =
      fst (verifyKey P h rawBody signature timestamp (KeyHandle k))
    \<and> (\<exists>m. \<forall>k. fst (verifyKey P h rawBody signature timestamp (KeyHandle k)) =
          Inr (case fst (valueToUint8Array h rawBody None) of
                 Inl e \<Rightarrow> False
               | Inr bodyData \<Rightarrow>
                   (case hex_bytes signature of
                      Inl e \<Rightarrow> False
                    | Inr sb \<Rightarrow>
                        (case verify P ''ed25519'' k sb m of Inl e \<Rightarrow> False | Inr b \<Rightarrow> b))))"
proof (cases rule: verifyKey_outcome_cases
      [where rawBody = rawBody and h = h and ts = timestamp and 'k = 'k])
  case (1 t)
  then show ?thesis
    by (simp add: verifyKey_other verifyKey_ignores_importKey split: sum.splits)
next
  case (2 m)
  from 2(1) obtain bodyData where b: "fst (valueToUint8Array h rawBody None) = Inr bodyData"
    using valueToUint8Array_error_iff [of h rawBody]
    by (cases "fst (valueToUint8Array h rawBody None)") auto
  have "\<forall>k. fst (verifyKey P h rawBody signature timestamp (KeyHandle k)) =
          Inr (case fst (valueToUint8Array h rawBody None) of
                 Inl e \<Rightarrow> False
               | Inr bodyData \<Rightarrow>
                   (case hex_bytes signature of
                      Inl e \<Rightarrow> False
                    | Inr sb \<Rightarrow>
                        (case verify P ''ed25519'' k sb m of Inl e \<Rightarrow> False | Inr b \<Rightarrow> b)))"
    by (simp add: 2(2) outcome_def b)
  then have 3: "\<exists>m. \<forall>k. fst (verifyKey P h rawBody signature timestamp (KeyHandle k)) =
          Inr (case fst (valueToUint8Array h rawBody None) of
                 Inl e \<Rightarrow> False
               | Inr bodyData \<Rightarrow>
                   (case hex_bytes signature of
                      Inl e \<Rightarrow> False
                    | Inr sb \<Rightarrow>
                        (case verify P ''ed25519'' k sb m of Inl e \<Rightarrow> False | Inr b \<Rightarrow> b)))" ..
  have 1: "fst (verifyKey P h rawBody signature timestamp (KeyString s)) =
      (case hex_bytes s of
         Inl e \<Rightarrow> Inr False
       | Inr keyData \<Rightarrow>
           (case importKey P ''raw'' keyData
                   \<lparr>alg_name = ''ed25519'', alg_namedCurve = ''ed25519''\<rparr> False [''verify''] of
              Inl e \<Rightarrow> Inr False
            | Inr k \<Rightarrow> fst (verifyKey P h rawBody signature timestamp (KeyHandle k))))"
    by (simp add: 2(2) outcome_def ed25519_algorithm_def split: sum.splits)
  have 2: "fst (verifyKey (P\<lparr>importKey := f\<rparr>) h rawBody signature timestamp (KeyHandle k)) =
      fst (verifyKey P h rawBody signature timestamp (KeyHandle k))"
    by (simp only: verifyKey_ignores_importKey)
  show ?thesis
    by (intro conjI) (fact 1 2 3)+
qed

theorem verifyKey_key_resolution_witness:
  "hex_bytes (ascii ''0b0c'') = Inr [0x0B, 0x0C]
   \<and> importKey toy_subtle ''raw'' [0x0B, 0x0C]
        \<lparr>alg_name = ''ed25519'', alg_namedCurve = ''ed25519''\<rparr> False [''verify'']
       = Inr [0x0B, 0x0C]
   \<and> fst (verifyKey toy_subtle [] (JSString (ascii ''2'')) (ascii ''31320b0c'') (ascii ''1'')
        (KeyString (ascii ''0b0c'')))
     = fst (verifyKey toy_subtle [] (JSString (ascii ''2'')) (ascii ''31320b0c'') (ascii ''1'')
        (KeyHandle [0x0B, 0x0C]))
   \<and> fst (verifyKey toy_subtle [] (JSString (ascii ''2'')) (ascii ''31320b0c'') (ascii ''1'')
        (KeyHandle [0x0B, 0x0C])) = Inr True"
proof -
  have ik: "importKey toy_subtle ''raw'' [0x0B, 0x0C]
        \<lparr>alg_name = ''ed25519'', alg_namedCurve = ''ed25519''\<rparr> False [''verify'']
       = Inr [0x0B, 0x0C]"
    by (simp add: toy_subtle_def ed25519_algorithm_def)
  have q: "fst (verifyKey toy_subtle [] (JSString (ascii ''2'')) (ascii ''31320b0c'') (ascii ''1'')
        (KeyString (ascii ''0b0c'')))
     = fst (verifyKey toy_subtle [] (JSString (ascii ''2'')) (ascii ''31320b0c'') (ascii ''1'')
        (KeyHandle [0x0B, 0x0C]))"
    using verifyKey_key_resolution [of toy_subtle "[]" "JSString (ascii ''2'')"
        "ascii ''31320b0c''" "ascii ''1''" "ascii ''0b0c''", THEN conjunct1]
    by (simp only: toy_values ik sum.case)
  have t: "fst (verifyKey toy_subtle [] (JSString (ascii ''2'')) (ascii ''31320b0c'') (ascii ''1'')
        (KeyHandle [0x0B, 0x0C])) = Inr True"
    by code_simp
  show ?thesis
    by (intro conjI) (fact toy_values ik q t)+
qed

subsection \<open>C5: an absent body is an empty body\<close>

text \<open>
  C5. For \<open>null\<close> and for \<open>undefined\<close> the normalizer returns an empty byte sequence
  and does not throw, under any format. So \<open>verifyKey\<close> with an absent raw body checks
  the signature against the timestamp bytes alone, as it does with the empty string as
  the body.
\<close>

theorem normalizer_absent_is_empty:
  fixes P :: "'k subtle_crypto"
  shows "result_bytes (valueToUint8Array h JSNull format) = Inr []
    \<and> result_bytes (valueToUint8Array h JSUndefined format) = Inr []
    \<and> fst (verifyKey P h JSNull signature timestamp (KeyHandle k)) =
        Inr (case hex_bytes signature of
               Inl e \<Rightarrow> False
             | Inr sb \<Rightarrow>
                 (case verify P ''ed25519'' k sb (TextEncoder_encode timestamp) of
                    Inl e \<Rightarrow> False | Inr b \<Rightarrow> b))
    \<and> fst (verifyKey P h JSUndefined signature timestamp (KeyHandle k)) =
        Inr (case hex_bytes signature of
               Inl e \<Rightarrow> False
             | Inr sb \<Rightarrow>
                 (case verify P ''ed25519'' k sb (TextEncoder_encode timestamp) of
                    Inl e \<Rightarrow> False | Inr b \<Rightarrow> b))
    \<and> fst (verifyKey P h JSNull signature timestamp key) =
        fst (verifyKey P h (JSString []) signature timestamp key)
    \<and> fst (verifyKey P h JSUndefined signature timestamp key) =
        fst (verifyKey P h (JSString []) signature timestamp key)"
proof -
  have R: "fst (verifyKey P h v signature timestamp key) =
      Inr (outcome P key signature (TextEncoder_encode timestamp))"
    if "valid_value h v" and "result_bytes (valueToUint8Array h v None) = Inr []"
    for v and key :: "'k client_key"
  proof (cases rule: verifyKey_outcome_cases
      [where rawBody = v and h = h and ts = timestamp and 'k = 'k])
    case (1 t)
    with that show ?thesis by (simp add: result_bytes_def)
  next
    case (2 m)
    from 2(3) that have "m = TextEncoder_encode timestamp" by simp
    then show ?thesis by (simp add: 2(2))
  qed
  have e: "result_bytes (valueToUint8Array h (JSString []) None) = Inr []"
    by (simp only: result_bytes_passthrough) (simp add: TextEncoder_encode_def)
  note n = result_bytes_passthrough(5) [of h] and u = result_bytes_passthrough(6) [of h]
  have 1: "result_bytes (valueToUint8Array h JSNull format) = Inr []"
    and 2: "result_bytes (valueToUint8Array h JSUndefined format) = Inr []"
    by (simp_all only: result_bytes_passthrough)
  have 3: "fst (verifyKey P h JSNull signature timestamp (KeyHandle k)) =
        Inr (case hex_bytes signature of
               Inl e \<Rightarrow> False
             | Inr sb \<Rightarrow>
                 (case verify P ''ed25519'' k sb (TextEncoder_encode timestamp) of
                    Inl e \<Rightarrow> False | Inr b \<Rightarrow> b))"
    using R [of JSNull "KeyHandle k"] n by (simp add: outcome_def)
  have 4: "fst (verifyKey P h JSUndefined signature timestamp (KeyHandle k)) =
        Inr (case hex_bytes signature of
               Inl e \<Rightarrow> False
             | Inr sb \<Rightarrow>
                 (case verify P ''ed25519'' k sb (TextEncoder_encode timestamp) of
                    Inl e \<Rightarrow> False | Inr b \<Rightarrow> b))"
    using R [of JSUndefined "KeyHandle k"] u by (simp add: outcome_def)
  have 5: "fst (verifyKey P h JSNull signature timestamp key) =
        fst (verifyKey P h (JSString []) signature timestamp key)"
    using R [of JSNull key] R [of "JSString []" key] n e by simp
  have 6: "fst (verifyKey P h JSUndefined signature timestamp key) =
        fst (verifyKey P h (JSString []) signature timestamp key)"
    using R [of JSUndefined key] R [of "JSString []" key] u e by simp
  show ?thesis
    by (intro conjI) (fact 1 2 3 4 5 6)+
qed

theorem normalizer_absent_is_empty_witness:
  "result_bytes (valueToUint8Array [[7]] JSNull None) = Inr []
   \<and> hex_bytes (ascii ''310b0c'') = Inr [0x31, 0x0B, 0x0C]
   \<and> TextEncoder_encode (ascii ''1'') = [0x31]
   \<and> fst (verifyKey toy_subtle [[7]] JSNull (ascii ''310b0c'') (ascii ''1'')
        (KeyHandle [0x0B, 0x0C])) = Inr True"
proof -
  note T = normalizer_absent_is_empty [of "[[7]]" None toy_subtle "ascii ''310b0c''"
      "ascii ''1''" "[0x0B, 0x0C]"]
  have s: "hex_bytes (ascii ''310b0c'') = Inr [0x31, 0x0B, 0x0C]" by code_simp
  have 1: "result_bytes (valueToUint8Array [[7]] JSNull None) = Inr []"
    by (rule T [THEN conjunct1])
  have 2: "fst (verifyKey toy_subtle [[7]] JSNull (ascii ''310b0c'') (ascii ''1'')
        (KeyHandle [0x0B, 0x0C])) = Inr True"
    using T [THEN conjunct2, THEN conjunct2, THEN conjunct1]
    by (simp add: s toy_values toy_subtle_def)
  show ?thesis
    by (intro conjI) (fact 1 s toy_values 2)+
qed

subsection \<open>C6: a string body and its UTF-8 bytes verify alike\<close>

text \<open>
  C6. A string body is normalized to its UTF-8 encoding, a byte-sequence body
  (\<open>Uint8Array\<close>, \<open>Buffer\<close>, \<open>ArrayBuffer\<close>) to the bytes it holds. Hence, for every
  string \<open>s\<close>, every signature, timestamp and public key, \<open>verifyKey\<close> returns the same
  boolean for the body \<open>s\<close> and for a byte sequence that holds the UTF-8 encoding of
  \<open>s\<close>, whatever the stores of the two calls.
\<close>

theorem verifyKey_string_or_bytes:
  fixes P :: "'k subtle_crypto"
  shows "result_bytes (valueToUint8Array h (JSString s) None) = Inr (TextEncoder_encode s)
    \<and> result_bytes (valueToUint8Array h (JSUint8Array a) None) = Inr (read_bytes h a)
    \<and> result_bytes (valueToUint8Array h (JSBuffer a) None) = Inr (read_bytes h a)
    \<and> result_bytes (valueToUint8Array h (JSArrayBuffer b) None) = Inr (read_buffer h b)
    \<and> (valid_value h bytes \<and>
        result_bytes (valueToUint8Array h bytes None) = Inr (TextEncoder_encode s) \<longrightarrow>
        fst (verifyKey P h bytes signature timestamp key) =
        fst (verifyKey P h' (JSString s) signature timestamp key))"
proof -
  have R: "fst (verifyKey P hh v signature timestamp key) =
      Inr (outcome P key signature (TextEncoder_encode timestamp @ TextEncoder_encode s))"
    if "valid_value hh v" and "result_bytes (valueToUint8Array hh v None) = Inr (TextEncoder_encode s)"
    for v hh
  proof (cases rule: verifyKey_outcome_cases
      [where rawBody = v and h = hh and ts = timestamp and 'k = 'k])
    case (1 t)
    with that show ?thesis by (simp add: result_bytes_def)
  next
    case (2 m)
    from 2(3) that have "m = TextEncoder_encode timestamp @ TextEncoder_encode s" by simp
    then show ?thesis by (simp add: 2(2))
  qed
  have 5: "valid_value h bytes \<and>
        result_bytes (valueToUint8Array h bytes None) = Inr (TextEncoder_encode s) \<longrightarrow>
        fst (verifyKey P h bytes signature timestamp key) =
        fst (verifyKey P h' (JSString s) signature timestamp key)"
  proof
    assume a: "valid_value h bytes \<and>
        result_bytes (valueToUint8Array h bytes None) = Inr (TextEncoder_encode s)"
    have "fst (verifyKey P h' (JSString s) signature timestamp key) =
      Inr (outcome P key signature (TextEncoder_encode timestamp @ TextEncoder_encode s))"
      by (rule R) (simp_all only: result_bytes_passthrough valid_value.simps)
    moreover have "fst (verifyKey P h bytes signature timestamp key) =
      Inr (outcome P key signature (TextEncoder_encode timestamp @ TextEncoder_encode s))"
      using a by (intro R) simp_all
    ultimately show "fst (verifyKey P h bytes signature timestamp key) =
        fst (verifyKey P h' (JSString s) signature timestamp key)" by simp
  qed
  show ?thesis
    by (intro conjI) (fact result_bytes_passthrough 5)+
qed

theorem verifyKey_string_or_bytes_witness:
  "valid_value [[0x68, 0x69]] (JSUint8Array \<lparr>buffer = 0, byteOffset = 0, byteLength = 2\<rparr>)
   \<and> result_bytes (valueToUint8Array [[0x68, 0x69]]
        (JSUint8Array \<lparr>buffer = 0, byteOffset = 0, byteLength = 2\<rparr>) None)
       = Inr (TextEncoder_encode (ascii ''hi''))
   \<and> fst (verifyKey toy_subtle [[0x68, 0x69]]
        (JSUint8Array \<lparr>buffer = 0, byteOffset = 0, byteLength = 2\<rparr>)
        (ascii ''3168690b0c'') (ascii ''1'') (KeyString (ascii ''0b0c'')))
     = fst (verifyKey toy_subtle [] (JSString (ascii ''hi''))
        (ascii ''3168690b0c'') (ascii ''1'') (KeyString (ascii ''0b0c'')))
   \<and> fst (verifyKey toy_subtle [] (JSString (ascii ''hi''))
        (ascii ''3168690b0c'') (ascii ''1'') (KeyString (ascii ''0b0c''))) = Inr True"
proof -
  let ?h = "[[0x68, 0x69]] :: heap"
  let ?a = "\<lparr>buffer = 0, byteOffset = 0, byteLength = 2\<rparr>"
  have v: "valid_value ?h (JSUint8Array ?a)"
    by (simp add: valid_view_def read_buffer_def)
  have e: "TextEncoder_encode (ascii ''hi'') = [0x68, 0x69]" by code_simp
  have r: "result_bytes (valueToUint8Array ?h (JSUint8Array ?a) None)
       = Inr (TextEncoder_encode (ascii ''hi''))"
    by (simp only: result_bytes_passthrough e) (simp add: read_bytes_def read_buffer_def)
  have q: "fst (verifyKey toy_subtle ?h (JSUint8Array ?a)
        (ascii ''3168690b0c'') (ascii ''1'') (KeyString (ascii ''0b0c'')))
     = fst (verifyKey toy_subtle [] (JSString (ascii ''hi''))
        (ascii ''3168690b0c'') (ascii ''1'') (KeyString (ascii ''0b0c'')))"
    using verifyKey_string_or_bytes [of ?h "ascii ''hi''" ?a 0 "JSUint8Array ?a" toy_subtle
        "ascii ''3168690b0c''" "ascii ''1''" "KeyString (ascii ''0b0c'')" "[]"] v r
    by (elim conjE) simp
  have t: "fst (verifyKey toy_subtle [] (JSString (ascii ''hi''))
        (ascii ''3168690b0c'') (ascii ''1'') (KeyString (ascii ''0b0c''))) = Inr True"
    by code_simp
  show ?thesis
    by (intro conjI) (fact v r q t)+
qed

subsection \<open>C7: other types are rejected\<close>

text \<open>
  C7, as amended. For every value that is present (neither \<open>null\<close> nor \<open>undefined\<close>)
  and is neither a string nor a \<open>Buffer\<close>, an \<open>ArrayBuffer\<close> or a \<open>Uint8Array\<close>, the
  normalizer throws, under any format, an error (a plain \<open>Error\<close>) whose message names
  the accepted types: string, Buffer, ArrayBuffer, Uint8Array. The store is left as it
  was, and these are the only values for which the normalizer throws this error.
\<close>

theorem normalizer_rejects_other_types:
  "((v \<noteq> JSUndefined \<and> v \<noteq> JSNull \<and> (\<forall>s. v \<noteq> JSString s) \<and> (\<forall>a. v \<noteq> JSBuffer a) \<and>
     (\<forall>b. v \<noteq> JSArrayBuffer b) \<and> (\<forall>a. v \<noteq> JSUint8Array a)) \<longrightarrow>
    valueToUint8Array h v format =
      (Inl (Error
         ''Unrecognized value type, must be one of: string, Buffer, ArrayBuffer, Uint8Array''), h))
   \<and> (valueToUint8Array h v format =
      (Inl (Error
         ''Unrecognized value type, must be one of: string, Buffer, ArrayBuffer, Uint8Array''), h)
      \<longrightarrow>
      (v \<noteq> JSUndefined \<and> v \<noteq> JSNull \<and> (\<forall>s. v \<noteq> JSString s) \<and> (\<forall>a. v \<noteq> JSBuffer a) \<and>
       (\<forall>b. v \<noteq> JSArrayBuffer b) \<and> (\<forall>a. v \<noteq> JSUint8Array a)))"
  by (cases v) (simp_all add: new_Uint8Array_def split: option.splits)

theorem normalizer_rejects_other_types_witness:
  "JSOther ''number'' \<noteq> JSUndefined \<and> JSOther ''number'' \<noteq> JSNull \<and>
   (\<forall>s. JSOther ''number'' \<noteq> JSString s) \<and> (\<forall>a. JSOther ''number'' \<noteq> JSBuffer a) \<and>
   (\<forall>b. JSOther ''number'' \<noteq> JSArrayBuffer b) \<and> (\<forall>a. JSOther ''number'' \<noteq> JSUint8Array a) \<and>
   valueToUint8Array [[1, 2]] (JSOther ''number'') (Some ''hex'') =
     (Inl (Error
        ''Unrecognized value type, must be one of: string, Buffer, ArrayBuffer, Uint8Array''),
      [[1, 2]])"
proof -
  have d: "JSOther ''number'' \<noteq> JSUndefined \<and> JSOther ''number'' \<noteq> JSNull \<and>
   (\<forall>s. JSOther ''number'' \<noteq> JSString s) \<and> (\<forall>a. JSOther ''number'' \<noteq> JSBuffer a) \<and>
   (\<forall>b. JSOther ''number'' \<noteq> JSArrayBuffer b) \<and> (\<forall>a. JSOther ''number'' \<noteq> JSUint8Array a)"
    by simp
  from normalizer_rejects_other_types [of "JSOther ''number''" "[[1, 2]]" "Some ''hex''",
      THEN conjunct1, THEN mp, OF d] d
  show ?thesis by (simp only: simp_thms)
qed

text \<open>
  As stated, C7 fails: \<open>null\<close> and \<open>undefined\<close> are neither strings nor byte
  sequences, and for them the normalizer returns a new empty array instead of throwing.
\<close>

theorem normalizer_rejects_other_types_counterexample:
  "valueToUint8Array [] JSNull None =
     (Inr \<lparr>buffer = 0, byteOffset = 0, byteLength = 0\<rparr>, [[]])
   \<and> valueToUint8Array [] JSUndefined None =
     (Inr \<lparr>buffer = 0, byteOffset = 0, byteLength = 0\<rparr>, [[]])"
  by (simp add: new_Uint8Array_def)

subsection \<open>C3: when the hex decoding raises\<close>

text \<open>
  C3, as amended. With the format tag \<open>"hex"\<close> the normalizer raises exactly when the
  string holds no character other than line terminators (LF, CR, U+2028, U+2029), the
  empty string among them; the error is a plain \<open>Error\<close> with the message
  \<open>Value is not a valid hex string\<close>. An odd length does not make it raise, and
  neither does a character that is no hexadecimal digit: every string with a character
  that is not a line terminator is decoded.
\<close>

theorem hex_normalizer_raises_iff:
  "((\<exists>e. fst (valueToUint8Array h (JSString s) (Some ''hex'')) = Inl e)
      \<longleftrightarrow> list_all isLineTerminator s)
   \<and> (fst (valueToUint8Array h (JSString s) (Some ''hex'')) = Inl e
        \<longrightarrow> e = Error ''Value is not a valid hex string'')
   \<and> (odd (length s) \<and> \<not> list_all isLineTerminator s
        \<longrightarrow> (\<exists>a. fst (valueToUint8Array h (JSString s) (Some ''hex'')) = Inr a))
   \<and> (list_ex (\<lambda>c. \<not> isHexDigit c \<and> \<not> isLineTerminator c) s
        \<longrightarrow> (\<exists>a. fst (valueToUint8Array h (JSString s) (Some ''hex'')) = Inr a))"
proof (cases "String_match s")
  case None
  then have l: "list_all isLineTerminator s" by (simp only: String_match_None_iff)
  then have "\<not> list_ex (\<lambda>c. \<not> isHexDigit c \<and> \<not> isLineTerminator c) s"
    by (auto simp: list_all_iff list_ex_iff)
  with None l show ?thesis
    by (simp add: valueToUint8Array_hex del: valueToUint8Array.simps)
next
  case (Some ms)
  then have l: "\<not> list_all isLineTerminator s"
    using String_match_None_iff [of s] by simp
  with Some show ?thesis
    by (simp add: valueToUint8Array_hex del: valueToUint8Array.simps)
qed

theorem hex_normalizer_raises_iff_witness:
  "odd (length (ascii ''abz'')) \<and> \<not> list_all isLineTerminator (ascii ''abz'')
   \<and> list_ex (\<lambda>c. \<not> isHexDigit c \<and> \<not> isLineTerminator c) (ascii ''abz'')
   \<and> (\<exists>a. fst (valueToUint8Array [] (JSString (ascii ''abz'')) (Some ''hex'')) = Inr a)
   \<and> list_all isLineTerminator [0x0A, 0x0D]
   \<and> (\<exists>e. fst (valueToUint8Array [] (JSString [0x0A, 0x0D]) (Some ''hex'')) = Inl e)"
proof -
  have 1: "odd (length (ascii ''abz''))" by (simp add: ascii_def)
  have 2: "\<not> list_all isLineTerminator (ascii ''abz'')" by code_simp
  have 3: "list_ex (\<lambda>c. \<not> isHexDigit c \<and> \<not> isLineTerminator c) (ascii ''abz'')" by code_simp
  have 5: "list_all isLineTerminator [0x0A, 0x0D]" by (simp add: isLineTerminator_def)
  have 4: "\<exists>a. fst (valueToUint8Array [] (JSString (ascii ''abz'')) (Some ''hex'')) = Inr a"
    using hex_normalizer_raises_iff [of "[]" "ascii ''abz''" undefined,
        THEN conjunct2, THEN conjunct2, THEN conjunct1] 1 2
    by blast
  have 6: "\<exists>e. fst (valueToUint8Array [] (JSString [0x0A, 0x0D]) (Some ''hex'')) = Inl e"
    using hex_normalizer_raises_iff [of "[]" "[0x0A, 0x0D]" undefined, THEN conjunct1] 5
    by blast
  show ?thesis
    by (intro conjI) (fact 1 2 3 4 5 6)+
qed

text \<open>
  As stated, C3 fails: \<open>"abc"\<close> has odd length and decodes to the bytes AB 0C, and
  \<open>"zz"\<close> holds no hexadecimal digit and decodes to the byte 00.
\<close>

theorem hex_normalizer_raises_counterexample:
  "odd (length (ascii ''abc''))
   \<and> valueToUint8Array [] (JSString (ascii ''abc'')) (Some ''hex'') =
       (Inr \<lparr>buffer = 0, byteOffset = 0, byteLength = 2\<rparr>, [[0xAB, 0x0C]])
   \<and> \<not> list_all isHexDigit (ascii ''zz'')
   \<and> valueToUint8Array [] (JSString (ascii ''zz'')) (Some ''hex'') =
       (Inr \<lparr>buffer = 0, byteOffset = 0, byteLength = 1\<rparr>, [[0]])"
  by code_simp

subsection \<open>C8: a signature of odd length\<close>




subsection \<open>C9: nothing is written into the inputs\<close>

text \<open>
  C9, as amended. \<open>verifyKey\<close> never mutates its inputs: the store after the call is
  the store before it followed by new buffers, so every array and buffer that existed
  before the call, a raw body among them, holds the same bytes after it; the same is
  true of the normalizer. Concatenation always returns a new array in a new buffer, and
  so does the normalization of an absent value, of a string and of a \<open>Buffer\<close>. The
  normalization of a \<open>Uint8Array\<close> returns that very array and the normalization of an
  \<open>ArrayBuffer\<close> a view of that very buffer: no new byte sequence, and nothing written.
\<close>

theorem verifyKey_mutates_nothing:
  "(\<exists>ext. snd (verifyKey P h rawBody signature timestamp key) = h @ ext)
   \<and> (buffer a < length h \<longrightarrow>
        read_bytes (snd (verifyKey P h rawBody signature timestamp key)) a = read_bytes h a)
   \<and> (b < length h \<longrightarrow>
        read_buffer (snd (verifyKey P h rawBody signature timestamp key)) b = read_buffer h b)
   \<and> (\<exists>ext. snd (valueToUint8Array h v format) = h @ ext)
   \<and> (\<exists>x. concatUint8Arrays h arr1 arr2 =
          (Inr \<lparr>buffer = length h, byteOffset = 0,
                byteLength = byteLength arr1 + byteLength arr2\<rparr>, h @ [x]))
   \<and> ((v = JSNull \<or> v = JSUndefined \<or> v = JSString s \<or> v = JSBuffer a) \<and>
       valueToUint8Array h v format = (Inr r, h')
       \<longrightarrow> buffer r = length h \<and> h' = h @ [read_bytes h' r])
   \<and> valueToUint8Array h (JSUint8Array a) format = (Inr a, h)
   \<and> valueToUint8Array h (JSArrayBuffer b) format = (Inr (view_of_ArrayBuffer h b), h)
   \<and> buffer (view_of_ArrayBuffer h b) = b"
proof -
  obtain ext where e: "snd (verifyKey P h rawBody signature timestamp key) = h @ ext"
    using verifyKey_extends by blast
  then have 1: "\<exists>ext. snd (verifyKey P h rawBody signature timestamp key) = h @ ext" ..
  have 2: "buffer a < length h \<longrightarrow>
        read_bytes (snd (verifyKey P h rawBody signature timestamp key)) a = read_bytes h a"
    by (simp add: e read_bytes_append)
  have 3: "b < length h \<longrightarrow>
        read_buffer (snd (verifyKey P h rawBody signature timestamp key)) b = read_buffer h b"
    by (simp add: e read_buffer_append)
  have 4: "\<exists>ext. snd (valueToUint8Array h v format) = h @ ext"
    by (rule valueToUint8Array_extends)
  have 5: "\<exists>x. concatUint8Arrays h arr1 arr2 =
          (Inr \<lparr>buffer = length h, byteOffset = 0,
                byteLength = byteLength arr1 + byteLength arr2\<rparr>, h @ [x])"
    by (rule concatUint8Arrays_fresh)
  have 6: "(v = JSNull \<or> v = JSUndefined \<or> v = JSString s \<or> v = JSBuffer a) \<and>
       valueToUint8Array h v format = (Inr r, h')
       \<longrightarrow> buffer r = length h \<and> h' = h @ [read_bytes h' r]"
    by (auto simp: new_Uint8Array_def read_bytes_fresh split: option.splits if_splits)
  have 7: "valueToUint8Array h (JSUint8Array a) format = (Inr a, h)" by simp
  have 8: "valueToUint8Array h (JSArrayBuffer b) format = (Inr (view_of_ArrayBuffer h b), h)"
    by simp
  have 9: "buffer (view_of_ArrayBuffer h b) = b" by (simp add: view_of_ArrayBuffer_def)
  show ?thesis
    by (intro conjI) (fact 1 2 3 4 5 6 7 8 9)+
qed

theorem verifyKey_mutates_nothing_witness:
  "buffer \<lparr>buffer = 0, byteOffset = 1, byteLength = 1\<rparr> < length [[0x32, 0x33 :: byte]]
   \<and> read_bytes (snd (verifyKey toy_subtle [[0x32, 0x33]]
          (JSUint8Array \<lparr>buffer = 0, byteOffset = 1, byteLength = 1\<rparr>)
          (ascii ''31330b0c'') (ascii ''1'') (KeyString (ascii ''0b0c''))))
        \<lparr>buffer = 0, byteOffset = 1, byteLength = 1\<rparr> = [0x33]
   \<and> read_buffer (snd (verifyKey toy_subtle [[0x32, 0x33]]
          (JSUint8Array \<lparr>buffer = 0, byteOffset = 1, byteLength = 1\<rparr>)
          (ascii ''31330b0c'') (ascii ''1'') (KeyString (ascii ''0b0c'')))) 0 = [0x32, 0x33]
   \<and> verifyKey toy_subtle [[0x32, 0x33]]
          (JSUint8Array \<lparr>buffer = 0, byteOffset = 1, byteLength = 1\<rparr>)
          (ascii ''31330b0c'') (ascii ''1'') (KeyString (ascii ''0b0c''))
      = (Inr True, [[0x32, 0x33], [0x31], [0x31, 0x33], [0x0B, 0x0C], [0x31, 0x33, 0x0B, 0x0C]])
   \<and> valueToUint8Array [[0x32, 0x33]] (JSBuffer \<lparr>buffer = 0, byteOffset = 1, byteLength = 1\<rparr>)
        None = (Inr \<lparr>buffer = 1, byteOffset = 0, byteLength = 1\<rparr>, [[0x32, 0x33], [0x33]])"
proof -
  let ?h = "[[0x32, 0x33]] :: heap"
  let ?a = "\<lparr>buffer = 0, byteOffset = 1, byteLength = 1\<rparr>"
  let ?r = "\<lparr>buffer = 1, byteOffset = 0, byteLength = 1\<rparr>"
  note T = verifyKey_mutates_nothing [of toy_subtle ?h "JSUint8Array ?a" "ascii ''31330b0c''"
      "ascii ''1''" "KeyString (ascii ''0b0c'')" ?a 0 "JSBuffer ?a" None ?a ?a undefined
      ?r "[[0x32, 0x33], [0x33]]"]
  have 1: "buffer ?a < length ?h" by simp
  have r0: "read_bytes ?h ?a = [0x33]" "read_buffer ?h 0 = [0x32, 0x33]"
    by (simp_all add: read_bytes_def read_buffer_def)
  have 2: "read_bytes (snd (verifyKey toy_subtle ?h (JSUint8Array ?a)
          (ascii ''31330b0c'') (ascii ''1'') (KeyString (ascii ''0b0c'')))) ?a = [0x33]"
    using T [THEN conjunct2, THEN conjunct1] 1 r0 by simp
  have 3: "read_buffer (snd (verifyKey toy_subtle ?h (JSUint8Array ?a)
          (ascii ''31330b0c'') (ascii ''1'') (KeyString (ascii ''0b0c'')))) 0 = [0x32, 0x33]"
    using T [THEN conjunct2, THEN conjunct2, THEN conjunct1] r0 by simp
  have 4: "verifyKey toy_subtle ?h (JSUint8Array ?a)
          (ascii ''31330b0c'') (ascii ''1'') (KeyString (ascii ''0b0c''))
      = (Inr True, [[0x32, 0x33], [0x31], [0x31, 0x33], [0x0B, 0x0C], [0x31, 0x33, 0x0B, 0x0C]])"
    by code_simp
  have 5: "valueToUint8Array ?h (JSBuffer ?a) None = (Inr ?r, [[0x32, 0x33], [0x33]])"
    by code_simp
  show ?thesis
    by (intro conjI) (fact 1 2 3 4 5)+
qed

text \<open>
  As stated, C9 fails where it says that every normalization produces a new byte
  sequence: for a \<open>Uint8Array\<close> and for an \<open>ArrayBuffer\<close> the result lies in the
  buffer of the input, and the store has no new buffer.
\<close>

theorem normalizer_returns_input_counterexample:
  "valueToUint8Array [[1, 2, 3]]
     (JSUint8Array \<lparr>buffer = 0, byteOffset = 0, byteLength = 3\<rparr>) None =
     (Inr \<lparr>buffer = 0, byteOffset = 0, byteLength = 3\<rparr>, [[1, 2, 3]])
   \<and> valueToUint8Array [[1, 2, 3]] (JSArrayBuffer 0) None =
     (Inr \<lparr>buffer = 0, byteOffset = 0, byteLength = 3\<rparr>, [[1, 2, 3]])"
  by (simp add: view_of_ArrayBuffer_def read_buffer_def)

subsection \<open>C10: what the hex decoding returns\<close>

text \<open>
  C10, as amended. For every string with at least one character that is not a line
  terminator, the normalizer under \<open>"hex"\<close> does not throw and returns one byte for
  each chunk that \<open>/.{1,2}/g\<close> matches. When the string has no line terminator at
  all, these are \<open>ceil(len(s)/2)\<close> bytes, the \<open>i\<close>-th one made from the characters
  \<open>2i\<close> and \<open>2i+1\<close>. A chunk contributes \<open>parseInt(chunk, 16)\<close> modulo 256: the byte
  0 when \<open>parseInt\<close> yields \<open>NaN\<close>, the chunk's value when it consists of
  hexadecimal digits. The strings that raise are those made of line terminators only,
  the empty string among them.
\<close>

theorem hex_normalizer_lenient:
  "(\<not> list_all isLineTerminator s \<longrightarrow>
      valueToUint8Array h (JSString s) (Some ''hex'') =
        (Inr \<lparr>buffer = length h, byteOffset = 0, byteLength = length (match_all s)\<rparr>,
         h @ [map (\<lambda>chunk. ToUint8 (parseInt16 chunk)) (match_all s)]))
   \<and> (s \<noteq> [] \<and> \<not> list_ex isLineTerminator s \<longrightarrow>
        (\<exists>bytes. hex_bytes s = Inr bytes \<and> length bytes = (length s + 1) div 2 \<and>
           (\<forall>i < length bytes. bytes ! i = ToUint8 (parseInt16 (take 2 (drop (2 * i) s))))))
   \<and> (parseInt16 chunk = None \<longrightarrow> ToUint8 (parseInt16 chunk) = 0)
   \<and> (chunk \<noteq> [] \<and> list_all isHexDigit chunk \<longrightarrow>
        ToUint8 (parseInt16 chunk) = of_nat (hex_value chunk))
   \<and> (list_all isLineTerminator s \<longrightarrow>
        valueToUint8Array h (JSString s) (Some ''hex'') =
          (Inl (Error ''Value is not a valid hex string''), h))"
proof (intro conjI impI)
  assume l: "\<not> list_all isLineTerminator s"
  then obtain ms where m: "String_match s = Some ms"
    using String_match_None_iff [of s] by (cases "String_match s") auto
  from String_match_Some [OF m] m
  show "valueToUint8Array h (JSString s) (Some ''hex'') =
        (Inr \<lparr>buffer = length h, byteOffset = 0, byteLength = length (match_all s)\<rparr>,
         h @ [map (\<lambda>chunk. ToUint8 (parseInt16 chunk)) (match_all s)])"
    by (simp add: valueToUint8Array_hex del: valueToUint8Array.simps)
next
  assume a: "s \<noteq> [] \<and> \<not> list_ex isLineTerminator s"
  then have l: "\<not> list_all isLineTerminator s"
    by (cases s) (auto simp: list_ex_iff list_all_iff)
  from a match_all_pairs [of s]
  have p: "length (match_all s) = (length s + 1) div 2"
    "\<forall>i < length (match_all s). match_all s ! i = take 2 (drop (2 * i) s)"
    by simp_all
  let ?bytes = "map (\<lambda>chunk. ToUint8 (parseInt16 chunk)) (match_all s)"
  have "hex_bytes s = Inr ?bytes" using l by (simp add: hex_bytes_cases)
  moreover have "length ?bytes = (length s + 1) div 2" using p by simp
  moreover have "\<forall>i < length ?bytes. ?bytes ! i = ToUint8 (parseInt16 (take 2 (drop (2 * i) s)))"
    using p by simp
  ultimately show "\<exists>bytes. hex_bytes s = Inr bytes \<and> length bytes = (length s + 1) div 2 \<and>
           (\<forall>i < length bytes. bytes ! i = ToUint8 (parseInt16 (take 2 (drop (2 * i) s))))"
    by blast
next
  assume "parseInt16 chunk = None"
  then show "ToUint8 (parseInt16 chunk) = 0" by (simp add: ToUint8_def)
next
  assume "chunk \<noteq> [] \<and> list_all isHexDigit chunk"
  then have "parseInt16 chunk = Some (int (hex_value chunk))"
    by (simp add: parseInt16_hex)
  then show "ToUint8 (parseInt16 chunk) = of_nat (hex_value chunk)"
    by (simp add: ToUint8_def)
next
  assume "list_all isLineTerminator s"
  then have "String_match s = None" by (simp only: String_match_None_iff)
  then show "valueToUint8Array h (JSString s) (Some ''hex'') =
          (Inl (Error ''Value is not a valid hex string''), h)"
    by (simp add: valueToUint8Array_hex del: valueToUint8Array.simps)
qed

theorem hex_normalizer_lenient_witness:
  "\<not> list_all isLineTerminator (ascii ''1gzzf'')
   \<and> ascii ''1gzzf'' \<noteq> [] \<and> \<not> list_ex isLineTerminator (ascii ''1gzzf'')
   \<and> (\<exists>bytes. hex_bytes (ascii ''1gzzf'') = Inr bytes \<and> length bytes = 3 \<and> bytes = [1, 0, 15])
   \<and> parseInt16 (ascii ''zz'') = None \<and> ToUint8 (parseInt16 (ascii ''zz'')) = 0
   \<and> ascii ''fF'' \<noteq> [] \<and> list_all isHexDigit (ascii ''fF'')
   \<and> ToUint8 (parseInt16 (ascii ''fF'')) = 255
   \<and> list_all isLineTerminator [0x2028]
   \<and> valueToUint8Array [] (JSString [0x2028]) (Some ''hex'') =
        (Inl (Error ''Value is not a valid hex string''), [])"
proof -
  note T = hex_normalizer_lenient [of "ascii ''1gzzf''" "[]" "ascii ''zz''"]
  note U = hex_normalizer_lenient [of "[0x2028]" "[]" "ascii ''fF''"]
  have 1: "\<not> list_all isLineTerminator (ascii ''1gzzf'')" by code_simp
  have 2: "ascii ''1gzzf'' \<noteq> []" by (simp add: ascii_def)
  have 3: "\<not> list_ex isLineTerminator (ascii ''1gzzf'')" by code_simp
  have v: "hex_bytes (ascii ''1gzzf'') = Inr [1, 0, 15]" by code_simp
  from T [THEN conjunct2, THEN conjunct1] 2 3
  obtain bytes where b: "hex_bytes (ascii ''1gzzf'') = Inr bytes"
    and "length bytes = (length (ascii ''1gzzf'') + 1) div 2" by blast
  then have "length bytes = 3" by (simp add: ascii_def)
  with b v have 4: "\<exists>bytes. hex_bytes (ascii ''1gzzf'') = Inr bytes \<and> length bytes = 3 \<and>
      bytes = [1, 0, 15]" by simp
  have 5: "parseInt16 (ascii ''zz'') = None" by code_simp
  have 6: "ToUint8 (parseInt16 (ascii ''zz'')) = 0"
    using T [THEN conjunct2, THEN conjunct2, THEN conjunct1] 5 by blast
  have 7: "ascii ''fF'' \<noteq> []" by (simp add: ascii_def)
  have 8: "list_all isHexDigit (ascii ''fF'')" by code_simp
  have hv: "hex_value (ascii ''fF'') = 255" by code_simp
  have 9: "ToUint8 (parseInt16 (ascii ''fF'')) = 255"
    using U [THEN conjunct2, THEN conjunct2, THEN conjunct2, THEN conjunct1] 7 8
    by (simp add: hv)
  have 10: "list_all isLineTerminator [0x2028]" by (simp add: isLineTerminator_def)
  have 11: "valueToUint8Array [] (JSString [0x2028]) (Some ''hex'') =
        (Inl (Error ''Value is not a valid hex string''), [])"
    using U [THEN conjunct2, THEN conjunct2, THEN conjunct2, THEN conjunct2] 10 by blast
  show ?thesis
    by (intro conjI) (fact 1 2 3 4 5 6 7 8 9 10 11)+
qed

text \<open>
  As stated, C10 fails: the string of one line feed is not empty and raises; the string
  \<open>ab\<close>, line feed, \<open>cd\<close> has five characters and gives two bytes; and the chunk
  \<open>"1g"\<close>, which is not valid hex, contributes the byte 01.
\<close>

theorem hex_normalizer_lenient_counterexample:
  "[0x0A] \<noteq> ([] :: js_string)
   \<and> valueToUint8Array [] (JSString [0x0A]) (Some ''hex'') =
       (Inl (Error ''Value is not a valid hex string''), [])
   \<and> hex_bytes [0x61, 0x62, 0x0A, 0x63, 0x64] = Inr [0xAB, 0xCD]
   \<and> \<not> list_all isHexDigit (ascii ''1g'')
   \<and> hex_bytes (ascii ''1g'') = Inr [1]"
  by code_simp

end
